theory Spec2Isabelle
  imports Main "HOL-Library.Char_ord" "HOL-Library.List_Lexorder" "HOL-Library.Sublist"
begin

section \<open>DocuSpark: a shallow embedding of docuspark.py\<close>

text \<open>
  The program converts documents found under an input root into Markdown files under
  an output root.  Everything it obtains from a library (the PDF, DOCX and PPTX
  readers, Pandoc, the image decoder and the OCR engine) is a field of the record
  \<open>env\<close>: a call that can raise returns a sum, \<open>Inl\<close> carrying the text of the
  exception.  Decoded images are values of a type variable \<open>'im\<close>.  Strings are lists
  of bytes, the UTF-8 encoding of the Python string; the text the OCR engine returns is
  a list of Unicode code points, because \<open>str.strip\<close> reads code points, and is
  encoded when it enters the Markdown.  \<open>os.path.relpath\<close> reads the working directory and is a field of the
  environment as well; \<open>os.path.join\<close> and \<open>os.path.splitext\<close> are written out.
  The input tree is a value the run receives, with every directory listing in the
  order the operating system reports it; the output tree is a state the run updates.
  The diagnostics the extractors print are not part of the model; the lines the
  orchestrator prints are recorded as events.
\<close>

subsection \<open>Configuration\<close>

type_synonym exn = string

definition RAW_DIR :: string where
  "RAW_DIR = ''data''"

definition OUTPUT_DIR :: string where
  "OUTPUT_DIR = ''clean_md''"

definition SUPPORTED_TYPES :: "string set" where
  "SUPPORTED_TYPES = {''.pdf'', ''.docx'', ''.pptx'', ''.txt'', ''.html'', ''.htm'', ''.rtf''}"

subsection \<open>Python string operations used by the program\<close>

text \<open>\<open>sep.join(parts)\<close>.\<close>

fun join :: "string \<Rightarrow> string list \<Rightarrow> string" where
  "join sep [] = []"
| "join sep [x] = x"
| "join sep (x # y # ys) = x @ sep @ join sep (y # ys)"

text \<open>\<open>str(n)\<close> for a non-negative integer: its decimal digits.\<close>

definition digit_char :: "nat \<Rightarrow> char" where
  "digit_char d = char_of (48 + d)"

fun str_nat :: "nat \<Rightarrow> string" where
  "str_nat n = (if n < 10 then [digit_char n] else str_nat (n div 10) @ [digit_char (n mod 10)])"

declare str_nat.simps [simp del]

text \<open>
  \<open>s.strip()\<close> on a string given as its code points: leading and trailing whitespace
  removed.  The whitespace code points are those of \<open>str.isspace\<close>: U+0009 to U+000D,
  U+001C to U+001F, U+0020, U+0085, U+00A0, U+1680, U+2000 to U+200A, U+2028, U+2029,
  U+202F, U+205F and U+3000.
\<close>

definition is_space :: "nat \<Rightarrow> bool" where
  "is_space c =
     ((0x09 \<le> c \<and> c \<le> 0x0D) \<or> (0x1C \<le> c \<and> c \<le> 0x20) \<or> c = 0x85 \<or> c = 0xA0
      \<or> c = 0x1680 \<or> (0x2000 \<le> c \<and> c \<le> 0x200A) \<or> c = 0x2028 \<or> c = 0x2029
      \<or> c = 0x202F \<or> c = 0x205F \<or> c = 0x3000)"

definition strip :: "nat list \<Rightarrow> nat list" where
  "strip s = rev (dropWhile is_space (rev (dropWhile is_space s)))"

text \<open>The UTF-8 encoding of a code point and of a string of code points.\<close>

definition utf8_char :: "nat \<Rightarrow> string" where
  "utf8_char c =
     (if c < 0x80 then [char_of c]
      else if c < 0x800 then [char_of (0xC0 + c div 64), char_of (0x80 + c mod 64)]
      else if c < 0x10000 then
        [char_of (0xE0 + c div 4096), char_of (0x80 + (c div 64) mod 64), char_of (0x80 + c mod 64)]
      else
        [char_of (0xF0 + c div 262144), char_of (0x80 + (c div 4096) mod 64),
         char_of (0x80 + (c div 64) mod 64), char_of (0x80 + c mod 64)])"

definition utf8 :: "nat list \<Rightarrow> string" where
  "utf8 cs = concat (map utf8_char cs)"

text \<open>The code points of a string of ASCII characters.\<close>

definition code_points :: "string \<Rightarrow> nat list" where
  "code_points s = map of_char s"

text \<open>\<open>needle in haystack\<close> on strings: a contiguous occurrence.\<close>

fun starts_with :: "string \<Rightarrow> string \<Rightarrow> bool" where
  "starts_with [] s = True"
| "starts_with (p # ps) [] = False"
| "starts_with (p # ps) (c # cs) = (p = c \<and> starts_with ps cs)"

fun contains :: "string \<Rightarrow> string \<Rightarrow> bool" where
  "contains needle [] = (needle = [])"
| "contains needle (c # cs) = (starts_with needle (c # cs) \<or> contains needle cs)"

text \<open>\<open>s.lower()\<close> on the ASCII letters.\<close>

definition lower_char :: "char \<Rightarrow> char" where
  "lower_char c = (if CHR ''A'' \<le> c \<and> c \<le> CHR ''Z'' then char_of (of_char c + (32::nat)) else c)"

definition lower :: "string \<Rightarrow> string" where
  "lower s = map lower_char s"

subsection \<open>The libraries, as an environment\<close>

record 'im pdf_page =
  page_extract_text :: "exn + string option"
  page_images :: "exn + (exn + 'im) list"

record 'im docx_rel =
  rel_target_ref :: string
  rel_image :: "exn + 'im"

record 'im docx_doc =
  doc_paragraphs :: "string list"
  doc_rels :: "'im docx_rel list"

record 'im pptx_shape =
  shape_text :: "string option"
  shape_type :: "exn + int option"
  shape_image :: "exn + 'im"

record 'im env =
  pdf_open :: "string \<Rightarrow> exn + 'im pdf_page list"
  docx_open :: "string \<Rightarrow> exn + 'im docx_doc"
  pptx_open :: "string \<Rightarrow> exn + 'im pptx_shape list list"
  pandoc_convert :: "string \<Rightarrow> exn + string"
  image_open :: "string \<Rightarrow> exn + 'im"
  image_to_string :: "'im \<Rightarrow> exn + nat list"
  image_save :: "'im \<Rightarrow> string \<Rightarrow> exn option"
  relpath :: "string \<Rightarrow> string \<Rightarrow> string"

subsection \<open>Helper functions\<close>

text \<open>
  The body of the \<open>try\<close> block of \<open>describe_image\<close>: it raises where \<open>Image.open\<close> or
  \<open>pytesseract.image_to_string\<close> does.  The text is handled as code points and the
  result is returned encoded.
\<close>

definition describe_image_try :: "'im env \<Rightarrow> string \<Rightarrow> exn + string" where
  "describe_image_try E image_path =
     (case image_open E image_path of
        Inl e \<Rightarrow> Inl e
      | Inr img \<Rightarrow>
          (case image_to_string E img of
             Inl e \<Rightarrow> Inl e
           | Inr text \<Rightarrow>
               (let text' = (if strip text = [] then
                               code_points
                                 ''No readable text detected. Consider using a captioning model.''
                             else text)
                in Inr (utf8 (strip text')))))"

text \<open>\<open>describe_image\<close>: the \<open>try\<close> block with its \<open>except Exception\<close> handler.\<close>

definition describe_image :: "'im env \<Rightarrow> string \<Rightarrow> string" where
  "describe_image E image_path =
     (case describe_image_try E image_path of
        Inr text \<Rightarrow> text
      | Inl e \<Rightarrow> ''Failed to describe image: '' @ e)"

text \<open>The two lines that one iteration of the loop of \<open>add_images_to_markdown\<close> appends.\<close>

definition figure_line :: "'im env \<Rightarrow> nat \<Rightarrow> string \<Rightarrow> string" where
  "figure_line E idx img_path =
     ''![Figure '' @ str_nat idx @ '']('' @ relpath E img_path OUTPUT_DIR @ '')''"

definition description_line :: "'im env \<Rightarrow> string \<Rightarrow> string" where
  "description_line E img_path =
     ''**Description:** '' @ describe_image E img_path @ [CHR 0x0A]"

text \<open>
  The loop \<open>for idx, img_path in enumerate(image_paths, start=1)\<close>, from the counter
  \<open>idx\<close> on: the lines it appends.
\<close>

fun image_lines :: "'im env \<Rightarrow> nat \<Rightarrow> string list \<Rightarrow> string list" where
  "image_lines E idx [] = []"
| "image_lines E idx (img_path # rest) =
     figure_line E idx img_path # description_line E img_path # image_lines E (Suc idx) rest"

definition images_heading :: string where
  "images_heading = [CHR 0x0A, CHR 0x0A] @ ''## Extracted Images'' @ [CHR 0x0A]"

definition markdown_lines :: "'im env \<Rightarrow> string \<Rightarrow> string list \<Rightarrow> string list" where
  "markdown_lines E md image_paths = [md, images_heading] @ image_lines E 1 image_paths"

definition add_images_to_markdown :: "'im env \<Rightarrow> string \<Rightarrow> string list \<Rightarrow> string" where
  "add_images_to_markdown E md image_paths =
     (if image_paths = [] then md
      else join [CHR 0x0A] (markdown_lines E md image_paths))"

subsection \<open>Paths\<close>

text \<open>\<open>os.path.join(a, b)\<close> of posixpath, for two arguments.\<close>

definition path_join :: "string \<Rightarrow> string \<Rightarrow> string" where
  "path_join a b =
     (if starts_with ''/'' b then b
      else if a = [] \<or> last a = CHR ''/'' then a @ b
      else a @ ''/'' @ b)"

text \<open>\<open>s.rfind(c)\<close> for a single character: the last index of \<open>c\<close>, or \<open>-1\<close>.\<close>

fun rfind_from :: "char \<Rightarrow> int \<Rightarrow> int \<Rightarrow> string \<Rightarrow> int" where
  "rfind_from c i found [] = found"
| "rfind_from c i found (x # xs) = rfind_from c (i + 1) (if x = c then i else found) xs"

definition rfind :: "char \<Rightarrow> string \<Rightarrow> int" where
  "rfind c s = rfind_from c 0 (- 1) s"

text \<open>
  The \<open>while\<close> loop of \<open>genericpath._splitext\<close>, which skips the leading dots of the file
  name: \<open>True\<close> when it returns the split at the last dot from inside the loop.
\<close>

function splitext_scan :: "string \<Rightarrow> int \<Rightarrow> int \<Rightarrow> bool" where
  "splitext_scan p filenameIndex dotIndex =
     (if filenameIndex < dotIndex then
        (if take 1 (drop (nat filenameIndex) p) \<noteq> ''.'' then True
         else splitext_scan p (filenameIndex + 1) dotIndex)
      else False)"
  by pat_completeness auto
termination
  by (relation "measure (\<lambda>(p, i, d). nat (d - i))") auto

declare splitext_scan.simps [simp del]

text \<open>\<open>os.path.splitext(p)\<close> of posixpath: the pair (root, ext).\<close>

definition splitext :: "string \<Rightarrow> string \<times> string" where
  "splitext p =
     (let sepIndex = rfind CHR ''/'' p; dotIndex = rfind CHR ''.'' p
      in if dotIndex > sepIndex \<and> splitext_scan p (sepIndex + 1) dotIndex
         then (take (nat dotIndex) p, drop (nat dotIndex) p)
         else (p, []))"

definition file_ext :: "string \<Rightarrow> string" where
  "file_ext p = lower (snd (splitext p))"

subsection \<open>File converters\<close>

type_synonym 'im extraction = "string option \<times> ('im \<times> string) list"

text \<open>
  \<open>convert_pdf\<close>.  The inner loop over the images of one page drops an image whose crop
  raises.  The loop over the pages stops at the first page whose text or image list
  raises, keeping what was collected before.
\<close>

fun pdf_page_imgs :: "nat \<Rightarrow> nat \<Rightarrow> (exn + 'im) list \<Rightarrow> ('im \<times> string) list" where
  "pdf_page_imgs page_idx img_idx [] = []"
| "pdf_page_imgs page_idx img_idx (c # cs) =
     (case c of
        Inl e \<Rightarrow> pdf_page_imgs page_idx (Suc img_idx) cs
      | Inr im \<Rightarrow>
          (im, ''img_'' @ str_nat page_idx @ ''_'' @ str_nat img_idx @ ''.png'')
            # pdf_page_imgs page_idx (Suc img_idx) cs)"

fun pdf_pages :: "nat \<Rightarrow> 'im pdf_page list \<Rightarrow> string list \<times> ('im \<times> string) list" where
  "pdf_pages page_idx [] = ([], [])"
| "pdf_pages page_idx (page # rest) =
     (case page_extract_text page of
        Inl e \<Rightarrow> ([], [])
      | Inr t \<Rightarrow>
          (let txt = (case t of None \<Rightarrow> [] | Some s \<Rightarrow> s) in
           case page_images page of
             Inl e \<Rightarrow> ([txt], [])
           | Inr cs \<Rightarrow>
               (txt # fst (pdf_pages (Suc page_idx) rest),
                pdf_page_imgs page_idx 1 cs @ snd (pdf_pages (Suc page_idx) rest))))"

definition convert_pdf :: "'im env \<Rightarrow> string \<Rightarrow> 'im extraction" where
  "convert_pdf E input_path =
     (case pdf_open E input_path of
        Inl e \<Rightarrow> (Some (join [CHR 0x0A, CHR 0x0A] []), [])
      | Inr pages \<Rightarrow>
          (Some (join [CHR 0x0A, CHR 0x0A] (fst (pdf_pages 1 pages))), snd (pdf_pages 1 pages)))"

text \<open>
  \<open>convert_docx\<close>.  The counter \<open>idx\<close> of \<open>enumerate(doc.part.rels.values(), start=1)\<close>
  advances at every relationship.
\<close>

fun docx_imgs :: "nat \<Rightarrow> 'im docx_rel list \<Rightarrow> ('im \<times> string) list" where
  "docx_imgs idx [] = []"
| "docx_imgs idx (rel # rest) =
     (if contains ''image'' (rel_target_ref rel) then
        (case rel_image rel of
           Inl e \<Rightarrow> docx_imgs (Suc idx) rest
         | Inr im \<Rightarrow> (im, ''img_'' @ str_nat idx @ ''.png'') # docx_imgs (Suc idx) rest)
      else docx_imgs (Suc idx) rest)"

definition convert_docx :: "'im env \<Rightarrow> string \<Rightarrow> 'im extraction" where
  "convert_docx E input_path =
     (case docx_open E input_path of
        Inl e \<Rightarrow> (Some (join [CHR 0x0A] []), [])
      | Inr doc \<Rightarrow> (Some (join [CHR 0x0A] (doc_paragraphs doc)), docx_imgs 1 (doc_rels doc)))"

text \<open>
  \<open>convert_pptx\<close>.  Reading \<open>shape.shape_type\<close> is outside the inner \<open>try\<close>: where it
  raises, the loops stop and what was collected is returned.  The third component of
  the loops' results says whether that happened.
\<close>

definition slide_heading :: "nat \<Rightarrow> string" where
  "slide_heading slide_idx = ''# Slide '' @ str_nat slide_idx"

definition shape_texts :: "'im pptx_shape \<Rightarrow> string list" where
  "shape_texts shape = (case shape_text shape of None \<Rightarrow> [] | Some t \<Rightarrow> [t])"

definition shape_imgs :: "nat \<Rightarrow> int option \<Rightarrow> 'im pptx_shape \<Rightarrow> ('im \<times> string) list" where
  "shape_imgs slide_idx ty shape =
     (if ty = Some 13 then
        (case shape_image shape of
           Inl e \<Rightarrow> []
         | Inr im \<Rightarrow> [(im, ''img_slide'' @ str_nat slide_idx @ ''.png'')])
      else [])"

fun pptx_shapes ::
  "nat \<Rightarrow> 'im pptx_shape list \<Rightarrow> string list \<times> ('im \<times> string) list \<times> exn option" where
  "pptx_shapes slide_idx [] = ([], [], None)"
| "pptx_shapes slide_idx (shape # rest) =
     (case shape_type shape of
        Inl e \<Rightarrow> (shape_texts shape, [], Some e)
      | Inr ty \<Rightarrow>
          (case pptx_shapes slide_idx rest of
             (ts, ims, r) \<Rightarrow> (shape_texts shape @ ts, shape_imgs slide_idx ty shape @ ims, r)))"

fun pptx_slides ::
  "nat \<Rightarrow> 'im pptx_shape list list \<Rightarrow> string list \<times> ('im \<times> string) list \<times> exn option" where
  "pptx_slides slide_idx [] = ([], [], None)"
| "pptx_slides slide_idx (slide # rest) =
     (case pptx_shapes slide_idx slide of
        (ts, ims, Some e) \<Rightarrow> (slide_heading slide_idx # ts, ims, Some e)
      | (ts, ims, None) \<Rightarrow>
          (case pptx_slides (Suc slide_idx) rest of
             (ts', ims', r) \<Rightarrow> (slide_heading slide_idx # ts @ ts', ims @ ims', r)))"

definition convert_pptx :: "'im env \<Rightarrow> string \<Rightarrow> 'im extraction" where
  "convert_pptx E input_path =
     (case pptx_open E input_path of
        Inl e \<Rightarrow> (Some (join [CHR 0x0A, CHR 0x0A] []), [])
      | Inr slides \<Rightarrow>
          (case pptx_slides 1 slides of
             (ts, ims, r) \<Rightarrow> (Some (join [CHR 0x0A, CHR 0x0A] ts), ims)))"

definition convert_generic :: "'im env \<Rightarrow> string \<Rightarrow> 'im extraction" where
  "convert_generic E input_path =
     (case pandoc_convert E input_path of
        Inr text \<Rightarrow> (Some text, [])
      | Inl e \<Rightarrow> (None, []))"

definition convert_file :: "'im env \<Rightarrow> string \<Rightarrow> 'im extraction" where
  "convert_file E input_path =
     (let ext = file_ext input_path in
      if ext = ''.pdf'' then convert_pdf E input_path
      else if ext = ''.docx'' then convert_docx E input_path
      else if ext = ''.pptx'' then convert_pptx E input_path
      else if ext \<in> {''.txt'', ''.html'', ''.htm'', ''.rtf''} then convert_generic E input_path
      else (None, []))"

subsection \<open>The output file system\<close>

text \<open>
  The output tree is a set of directories and a map from paths to file contents, both
  keyed by the path's components.  A path is resolved the way \<open>posixpath.normpath\<close>
  reads it: empty components and \<open>.\<close> are dropped, \<open>..\<close> removes the component
  before it; an absolute path starts with the component \<open>/\<close>.  Symbolic links and
  permissions are not modelled.  The list \<open>stdout\<close> holds what the orchestrator printed.
\<close>

datatype 'im content = Image_file 'im | Text_file string

datatype event =
    Started
  | Missing_root string
  | Processing string
  | Skipped string
  | Save_failed string exn
  | Finished

record 'im world =
  dirs :: "string list set"
  files :: "string list \<rightharpoonup> 'im content"
  stdout :: "event list"

text \<open>\<open>s.split('/')\<close>.\<close>

fun split_sep :: "string \<Rightarrow> string list" where
  "split_sep [] = [[]]"
| "split_sep (c # cs) =
     (if c = CHR ''/'' then [] # split_sep cs
      else (case split_sep cs of [] \<Rightarrow> [[c]] | x # xs \<Rightarrow> (c # x) # xs))"

fun norm_comps :: "bool \<Rightarrow> string list \<Rightarrow> string list \<Rightarrow> string list" where
  "norm_comps absolute new_comps [] = new_comps"
| "norm_comps absolute new_comps (part # rest) =
     (if part = [] \<or> part = ''.'' then norm_comps absolute new_comps rest
      else if part \<noteq> ''..'' \<or> (\<not> absolute \<and> new_comps = [])
                \<or> (new_comps \<noteq> [] \<and> last new_comps = ''..'')
        then norm_comps absolute (new_comps @ [part]) rest
      else if new_comps \<noteq> [] then norm_comps absolute (butlast new_comps) rest
      else norm_comps absolute new_comps rest)"

definition resolve :: "string \<Rightarrow> string list" where
  "resolve p =
     (if starts_with ''/'' p then ''/'' # norm_comps True [] (split_sep p)
      else norm_comps False [] (split_sep p))"

text \<open>A path and the directories above it, the working directory \<open>[]\<close> first.\<close>

fun ancestors :: "string list \<Rightarrow> string list list" where
  "ancestors [] = [[]]"
| "ancestors (c # cs) = [] # map ((#) c) (ancestors cs)"

definition is_dir :: "'im world \<Rightarrow> string \<Rightarrow> bool" where
  "is_dir w p = (resolve p = [] \<or> resolve p = [''/''] \<or> resolve p \<in> dirs w)"

definition print_event :: "event \<Rightarrow> 'im world \<Rightarrow> 'im world" where
  "print_event ev w = w\<lparr>stdout := stdout w @ [ev]\<rparr>"

text \<open>
  \<open>ensure_dir\<close>, that is \<open>os.makedirs(path, exist_ok=True)\<close>: it raises where a regular
  file stands at the path or above it, and otherwise leaves the path and every
  directory above it in place.
\<close>

definition ensure_dir :: "'im world \<Rightarrow> string \<Rightarrow> exn + 'im world" where
  "ensure_dir w path =
     (if list_ex (\<lambda>a. files w a \<noteq> None) (ancestors (resolve path))
      then Inl (''[Errno 17] File exists: '' @ path)
      else Inr (w\<lparr>dirs := dirs w \<union> set (ancestors (resolve path))\<rparr>))"

text \<open>
  Opening a path for writing and storing a content there: it raises where the path is
  a directory, or the directory it lies in does not exist.
\<close>

definition write_file :: "'im world \<Rightarrow> string \<Rightarrow> 'im content \<Rightarrow> exn + 'im world" where
  "write_file w path c =
     (if is_dir w path then Inl (''[Errno 21] Is a directory: '' @ path)
      else if resolve path = [] \<or> \<not> (butlast (resolve path) = [] \<or> butlast (resolve path) = [''/'']
                \<or> butlast (resolve path) \<in> dirs w)
        then Inl (''[Errno 2] No such file or directory: '' @ path)
      else Inr (w\<lparr>files := (files w)(resolve path \<mapsto> c)\<rparr>))"

text \<open>
  \<open>im.save(img_path)\<close>: the encoder may refuse the image (the field \<open>image_save\<close> then
  gives the exception), and the file may not be writable.  A failed save is taken to
  leave the tree as it was.
\<close>

definition save_image :: "'im env \<Rightarrow> 'im world \<Rightarrow> 'im \<Rightarrow> string \<Rightarrow> exn + 'im world" where
  "save_image E w im img_path =
     (case image_save E im img_path of
        Some e \<Rightarrow> Inl e
      | None \<Rightarrow> write_file w img_path (Image_file im))"

subsection \<open>The input tree\<close>

text \<open>
  A directory of the input tree: its name, its subdirectories and the names of its
  files, each list in the order in which the directory listing reports the entries.
  \<open>os_walk walk_top t\<close> is what \<open>os.walk(walk_top)\<close> yields, top-down: the triple for a directory,
  then the walks of its subdirectories in the order of the listing.
\<close>

datatype dir_tree = Dir (dir_name: string) (dir_subdirs: "dir_tree list") (dir_files: "string list")

fun os_walk :: "string \<Rightarrow> dir_tree \<Rightarrow> (string \<times> string list \<times> string list) list" where
  "os_walk walk_top (Dir n subs fs) =
     (walk_top, map dir_name subs, fs)
       # concat (map (\<lambda>s. os_walk (path_join walk_top (dir_name s)) s) subs)"

subsection \<open>Pipeline\<close>

definition output_dir_of :: "'im env \<Rightarrow> string \<Rightarrow> string" where
  "output_dir_of E root = path_join OUTPUT_DIR (relpath E root RAW_DIR)"

definition images_dir_of :: "'im env \<Rightarrow> string \<Rightarrow> string" where
  "images_dir_of E root = path_join (output_dir_of E root) ''images''"

definition md_output_path_of :: "'im env \<Rightarrow> string \<Rightarrow> string \<Rightarrow> string" where
  "md_output_path_of E root file =
     path_join (output_dir_of E root) (fst (splitext file) @ ''.md'')"

text \<open>
  The loop \<open>for im, img_name in images\<close> of \<open>run_pipeline\<close>: the tree after it and the
  list \<open>img_paths\<close>.  \<open>ensure_dir\<close> is outside the \<open>try\<close>, so its exception leaves the
  loop; an exception of the save is caught and printed.
\<close>

fun save_images ::
  "'im env \<Rightarrow> 'im world \<Rightarrow> string \<Rightarrow> ('im \<times> string) list \<Rightarrow> exn + ('im world \<times> string list)" where
  "save_images E w output_dir [] = Inr (w, [])"
| "save_images E w output_dir ((im, img_name) # rest) =
     (case ensure_dir w (path_join output_dir ''images'') of
        Inl e \<Rightarrow> Inl e
      | Inr w1 \<Rightarrow>
          (case save_image E w1 im (path_join (path_join output_dir ''images'') img_name) of
             Inr w2 \<Rightarrow>
               (case save_images E w2 output_dir rest of
                  Inl e \<Rightarrow> Inl e
                | Inr (w3, img_paths) \<Rightarrow>
                    Inr (w3, path_join (path_join output_dir ''images'') img_name # img_paths))
           | Inl e \<Rightarrow> save_images E (print_event (Save_failed img_name e) w1) output_dir rest))"

text \<open>
  One iteration of the inner loop for a file that passed the extension filter, in two
  parts: up to the call of \<open>convert_file\<close>, and from that call on.
\<close>

definition world_at_dispatch :: "'im env \<Rightarrow> 'im world \<Rightarrow> string \<Rightarrow> string \<Rightarrow> exn + 'im world" where
  "world_at_dispatch E w root file =
     (case ensure_dir w (output_dir_of E root) of
        Inl e \<Rightarrow> Inl e
      | Inr w1 \<Rightarrow> Inr (print_event (Processing (path_join root file)) w1))"

definition process_file :: "'im env \<Rightarrow> 'im world \<Rightarrow> string \<Rightarrow> string \<Rightarrow> exn + 'im world" where
  "process_file E w root file =
     (case world_at_dispatch E w root file of
        Inl e \<Rightarrow> Inl e
      | Inr w1 \<Rightarrow>
          (case convert_file E (path_join root file) of
             (None, images) \<Rightarrow> Inr (print_event (Skipped (path_join root file)) w1)
           | (Some markdown_text, images) \<Rightarrow>
               (case save_images E w1 (output_dir_of E root) images of
                  Inl e \<Rightarrow> Inl e
                | Inr (w2, img_paths) \<Rightarrow>
                    write_file w2 (md_output_path_of E root file)
                      (Text_file (add_images_to_markdown E markdown_text img_paths)))))"

text \<open>The loop \<open>for file in ...\<close> over the files of one directory, with its filter.\<close>

fun process_files :: "'im env \<Rightarrow> 'im world \<Rightarrow> string \<Rightarrow> string list \<Rightarrow> exn + 'im world" where
  "process_files E w root [] = Inr w"
| "process_files E w root (file # rest) =
     (if file_ext file \<notin> SUPPORTED_TYPES then process_files E w root rest
      else (case process_file E w root file of
              Inl e \<Rightarrow> Inl e
            | Inr w' \<Rightarrow> process_files E w' root rest))"

text \<open>The loop over the triples of \<open>os.walk\<close>.\<close>

fun walk_loop ::
  "'im env \<Rightarrow> 'im world \<Rightarrow> (string \<times> string list \<times> string list) list \<Rightarrow> exn + 'im world" where
  "walk_loop E w [] = Inr w"
| "walk_loop E w ((root, ds, fs) # rest) =
     (case process_files E w root (sort fs) of
        Inl e \<Rightarrow> Inl e
      | Inr w' \<Rightarrow> walk_loop E w' rest)"

text \<open>
  \<open>run_pipeline\<close>.  The input root is \<open>None\<close> where \<open>os.path.exists(RAW_DIR)\<close> is false.
  An exception nothing catches ends the run: the result is \<open>Inl\<close>.
\<close>

definition run_pipeline :: "'im env \<Rightarrow> 'im world \<Rightarrow> dir_tree option \<Rightarrow> exn + 'im world" where
  "run_pipeline E w input =
     (case input of
        None \<Rightarrow> Inr (print_event (Missing_root RAW_DIR) (print_event Started w))
      | Some t \<Rightarrow>
          (case walk_loop E (print_event Started w) (os_walk RAW_DIR t) of
             Inl e \<Rightarrow> Inl e
           | Inr w' \<Rightarrow> Inr (print_event Finished w')))"

subsection \<open>Reading the output back\<close>

text \<open>
  The number a line of the form \<open>![Figure N](...)\<close> carries; \<open>None\<close> for any other
  line.  \<open>figure_labels\<close> reads the numbers off a list of lines, in order.
\<close>

definition is_digit :: "char \<Rightarrow> bool" where
  "is_digit c = (CHR ''0'' \<le> c \<and> c \<le> CHR ''9'')"

definition digit_val :: "char \<Rightarrow> nat" where
  "digit_val c = of_char c - 48"

definition nat_of_digits :: "string \<Rightarrow> nat" where
  "nat_of_digits ds = foldl (\<lambda>a c. 10 * a + digit_val c) 0 ds"

definition figure_label :: "string \<Rightarrow> nat option" where
  "figure_label line =
     (if starts_with ''![Figure '' line then
        (let rest = drop 9 line; ds = takeWhile is_digit rest
         in if ds \<noteq> [] \<and> starts_with '']('' (drop (length ds) rest)
            then Some (nat_of_digits ds) else None)
      else None)"

definition figure_labels :: "string list \<Rightarrow> nat list" where
  "figure_labels ls = List.map_filter figure_label ls"

text \<open>The input paths of the \<open>Processing\<close> lines printed so far, in order.\<close>

fun processing_path :: "event \<Rightarrow> string option" where
  "processing_path (Processing p) = Some p"
| "processing_path ev = None"

definition processing_trace :: "'im world \<Rightarrow> string list" where
  "processing_trace w = List.map_filter processing_path (stdout w)"

text \<open>
  The files of one directory that pass the extension filter, in sorted name order,
  and the input paths of a list of walk triples in the order of the triples.
\<close>

definition supported_sorted :: "string list \<Rightarrow> string list" where
  "supported_sorted fs = filter (\<lambda>f. file_ext f \<in> SUPPORTED_TYPES) (sort fs)"

definition walk_inputs :: "(string \<times> string list \<times> string list) list \<Rightarrow> string list" where
  "walk_inputs triples =
     concat (map (\<lambda>(root, ds, fs). map (path_join root) (supported_sorted fs)) triples)"

text \<open>
  The walk as the specification words it, directories visited in name order: the
  subdirectories of every directory are taken sorted by name.
\<close>

fun name_order_walk :: "string \<Rightarrow> dir_tree \<Rightarrow> (string \<times> string list \<times> string list) list" where
  "name_order_walk walk_top (Dir n subs fs) =
     (walk_top, sort (map dir_name subs), fs)
       # concat (map (\<lambda>s. name_order_walk (path_join walk_top (dir_name s)) s)
                   (sort_key dir_name subs))"

text \<open>A tree whose listings already report the subdirectories sorted by name.\<close>

fun listed_in_name_order :: "dir_tree \<Rightarrow> bool" where
  "listed_in_name_order (Dir n subs fs) =
     (sorted (map dir_name subs) \<and> list_all listed_in_name_order subs)"

subsection \<open>A concrete environment\<close>

text \<open>
  An environment with images as numbers, for evaluating the program: a PDF with one
  page and one image, a DOCX whose second relationship is an image, a PPTX with one
  slide of two text shapes, a text file Pandoc converts and one it does not.
\<close>

definition sample_docx :: "nat docx_doc" where
  "sample_docx =
     \<lparr>doc_paragraphs = [''Title'', ''Body''],
      doc_rels = [\<lparr>rel_target_ref = ''styles.xml'', rel_image = Inl ''not an image''\<rparr>,
                  \<lparr>rel_target_ref = ''media/image1.png'', rel_image = Inr 5\<rparr>]\<rparr>"

definition sample_slides :: "nat pptx_shape list list" where
  "sample_slides =
     [[\<lparr>shape_text = Some ''a'', shape_type = Inr (Some 17), shape_image = Inl ''no image''\<rparr>,
       \<lparr>shape_text = Some ''b'', shape_type = Inr (Some 17), shape_image = Inl ''no image''\<rparr>]]"

definition sample_env :: "nat env" where
  "sample_env =
     \<lparr>pdf_open = (\<lambda>p. if p = ''data/report.pdf''
                       then Inr [\<lparr>page_extract_text = Inr (Some ''hello''), page_images = Inr [Inr 7]\<rparr>]
                       else Inl ''cannot open''),
      docx_open = (\<lambda>p. if p = ''data/d.docx'' then Inr sample_docx else Inl ''cannot open''),
      pptx_open = (\<lambda>p. if p = ''data/s.pptx'' then Inr sample_slides else Inl ''cannot open''),
      pandoc_convert = (\<lambda>p. if p = ''data/a.txt'' then Inr ''hello'' else Inl ''pandoc failed''),
      image_open = (\<lambda>p. if p = ''bad.png'' then Inl ''cannot identify image file'' else Inr (length p)),
      image_to_string = (\<lambda>im. if im = 0 then Inl ''engine error''
                              else Inr [0x20, 0xA0, 0x3000, 0x85, 0x0A]),
      image_save = (\<lambda>im p. if im = 9 then Some ''cannot write mode'' else None),
      relpath = (\<lambda>p start. if p = start then ''.'' else drop (Suc (length start)) p)\<rparr>"

definition empty_world :: "nat world" where
  "empty_world = \<lparr>dirs = {}, files = Map.empty, stdout = []\<rparr>"

subsection \<open>Definitions used to state the extractors' results\<close>

text \<open>
  What the relationship with counter \<open>i\<close> contributes to the images of a DOCX
  document: one image named \<open>img_i.png\<close> where its target reference contains
  \<open>image\<close> and its payload decodes, nothing otherwise.
\<close>

definition docx_rel_imgs :: "nat \<times> 'im docx_rel \<Rightarrow> ('im \<times> string) list" where
  "docx_rel_imgs = (\<lambda>(i, rel).
     if contains ''image'' (rel_target_ref rel) then
       (case rel_image rel of Inl e \<Rightarrow> [] | Inr im \<Rightarrow> [(im, ''img_'' @ str_nat i @ ''.png'')])
     else [])"

text \<open>
  The PPTX text as the specification words it: within a slide the heading and the
  shape texts on lines of their own, separated by single newlines; the slides joined
  by a blank line.
\<close>

definition claimed_pptx_text :: "'im pptx_shape list list \<Rightarrow> string" where
  "claimed_pptx_text slides =
     join [CHR 0x0A, CHR 0x0A]
       (map (\<lambda>(i, slide). join [CHR 0x0A] (slide_heading i # concat (map shape_texts slide)))
            (zip [1..<Suc (length slides)] slides))"

subsection \<open>Two input trees\<close>

text \<open>
  Two trees with the same directories and files.  The listing of the first reports the
  subdirectory \<open>b\<close> before \<open>a\<close>; the listing of the second reports them in name order.
  In \<open>sample_env\<close> Pandoc converts none of their files.
\<close>

definition unsorted_tree :: dir_tree where
  "unsorted_tree =
     Dir ''data'' [Dir ''b'' [] [''x.txt''], Dir ''a'' [] [''x.txt'']]
       [''zz.txt'', ''notes.csv'', ''aa.txt'']"

definition sorted_tree :: dir_tree where
  "sorted_tree =
     Dir ''data'' [Dir ''a'' [] [''x.txt''], Dir ''b'' [] [''x.txt'']]
       [''zz.txt'', ''notes.csv'', ''aa.txt'']"

subsection \<open>Definitions used to state the results of the save loop and of a PDF\<close>

text \<open>
  \<open>writable D p\<close>: with the directories \<open>D\<close>, the path \<open>p\<close> can be opened for writing
  (it is no directory and the directory it lies in exists).  \<open>save_succeeds E D\<close>: the
  save of an image at a path succeeds, that is the encoder accepts the image and the
  path is writable.  \<open>loop_dirs w output_dir\<close> are the directories during the save
  loop started in \<open>w\<close>: those of \<open>w\<close> and the \<open>images\<close> subfolder with the directories
  above it.  \<open>image_path_of\<close> pairs an image with the path it is saved at.
\<close>

definition writable :: "string list set \<Rightarrow> string \<Rightarrow> bool" where
  "writable D p =
     (\<not> (resolve p = [] \<or> resolve p = [''/''] \<or> resolve p \<in> D)
      \<and> (butlast (resolve p) = [] \<or> butlast (resolve p) = [''/''] \<or> butlast (resolve p) \<in> D))"

definition save_succeeds :: "'im env \<Rightarrow> string list set \<Rightarrow> 'im \<times> string \<Rightarrow> bool" where
  "save_succeeds E D = (\<lambda>(im, img_path). image_save E im img_path = None \<and> writable D img_path)"

definition image_path_of :: "string \<Rightarrow> 'im \<times> string \<Rightarrow> 'im \<times> string" where
  "image_path_of output_dir = (\<lambda>(im, img_name).
     (im, path_join (path_join output_dir ''images'') img_name))"

definition loop_dirs :: "'im world \<Rightarrow> string \<Rightarrow> string list set" where
  "loop_dirs w output_dir = dirs w \<union> set (ancestors (resolve (path_join output_dir ''images'')))"



section \<open>Properties\<close>

subsection \<open>The Markdown assembler without images\<close>

text \<open>
  Claim C3.  For every base text, when the list of saved image paths is empty the
  assembler returns the base text unchanged: no heading and nothing else is appended.
\<close>

theorem assemble_no_images_unchanged:
  "add_images_to_markdown E md [] = md"
  by (simp add: add_images_to_markdown_def)

subsection \<open>The image describer\<close>

lemma strip_all_space: "\<forall>c\<in>set s. is_space c \<Longrightarrow> strip s = []"
proof -
  assume "\<forall>c\<in>set s. is_space c"
  then have h: "dropWhile is_space s = []" by simp
  show ?thesis by (simp only: strip_def h rev.simps dropWhile.simps)
qed

lemma utf8_code_points: "\<forall>c\<in>set s. of_char c < (128::nat) \<Longrightarrow> utf8 (code_points s) = s"
  by (induction s) (simp_all add: utf8_def code_points_def utf8_char_def)

lemma strip_no_outer_space:
  "s \<noteq> [] \<Longrightarrow> \<not> is_space (hd s) \<Longrightarrow> \<not> is_space (last s) \<Longrightarrow> strip s = s"
proof -
  assume n: "s \<noteq> []" and h: "\<not> is_space (hd s)" and l: "\<not> is_space (last s)"
  from n h have a: "dropWhile is_space s = s" by (cases s) simp_all
  from n l have b: "dropWhile is_space (rev s) = rev s" by (cases "rev s") (simp_all add: last_rev)
  show ?thesis by (simp only: strip_def a b rev_rev_ident)
qed

lemma strip_fallback:
  "utf8 (strip (code_points ''No readable text detected. Consider using a captioning model.''))
     = ''No readable text detected. Consider using a captioning model.''"
proof -
  let ?s = "''No readable text detected. Consider using a captioning model.''"
  have "strip (code_points ?s) = code_points ?s"
    by (rule strip_no_outer_space) (simp_all add: code_points_def is_space_def)
  moreover have "utf8 (code_points ?s) = ?s"
    by (rule utf8_code_points) simp
  ultimately show ?thesis by simp
qed

text \<open>
  Claim C4.  The image describer returns a string for every input and lets no
  exception out: where the OCR succeeds with a text that is empty or consists of
  whitespace code points only (those of \<open>str.isspace\<close>, the Unicode ones included)
  it returns the fixed fallback string; where opening the image or the OCR raises, it
  returns \<open>Failed to describe image: \<close> followed by the text of the exception.  The
  last two conjuncts say that the result is the handler applied to whatever the
  \<open>try\<close> block does.
\<close>

theorem describe_image_total:
  "(image_open E p = Inr img \<and> image_to_string E img = Inr text \<and> (\<forall>c\<in>set text. is_space c)
      \<longrightarrow> describe_image E p = ''No readable text detected. Consider using a captioning model.'')
   \<and> (image_open E p = Inl e \<longrightarrow> describe_image E p = ''Failed to describe image: '' @ e)
   \<and> (image_open E p = Inr img \<and> image_to_string E img = Inl e
      \<longrightarrow> describe_image E p = ''Failed to describe image: '' @ e)
   \<and> (describe_image_try E p = Inl e \<longrightarrow> describe_image E p = ''Failed to describe image: '' @ e)
   \<and> (describe_image_try E p = Inr r \<longrightarrow> describe_image E p = r)"
  by (simp add: describe_image_def describe_image_try_def strip_all_space strip_fallback)

theorem describe_image_total_witness:
  "describe_image sample_env ''a.png'' = ''No readable text detected. Consider using a captioning model.''
   \<and> describe_image sample_env ''bad.png'' = ''Failed to describe image: cannot identify image file''
   \<and> describe_image sample_env [] = ''Failed to describe image: engine error''"
proof -
  have a: "image_open sample_env ''a.png'' = Inr 5
        \<and> image_to_string sample_env 5 = Inr [0x20, 0xA0, 0x3000, 0x85, 0x0A]
        \<and> (\<forall>c\<in>set [0x20, 0xA0, 0x3000, 0x85, 0x0A]. is_space c)"
    by (simp add: sample_env_def is_space_def)
  have b: "image_open sample_env ''bad.png'' = Inl ''cannot identify image file''"
    by (simp add: sample_env_def)
  have c: "image_open sample_env [] = Inr 0 \<and> image_to_string sample_env 0 = Inl ''engine error''"
    by (simp add: sample_env_def)
  from a b c describe_image_total [of sample_env "''a.png''" 5 "[0x20, 0xA0, 0x3000, 0x85, 0x0A]"]
    describe_image_total [of sample_env "''bad.png''" _ _ "''cannot identify image file''"]
    describe_image_total [of sample_env "[]" 0 _ "''engine error''"]
  show ?thesis by simp
qed

subsection \<open>The dispatcher\<close>

lemma file_ext_csv: "file_ext ''data/table.csv'' = ''.csv''"
  by (simp add: file_ext_def splitext_def rfind_def splitext_scan.simps lower_def lower_char_def)

text \<open>
  Claim C10.  \<open>convert_file\<close> is total over the extensions: for a path whose lowercase
  extension is outside the supported set it raises nothing and returns absent text
  with an empty image list.
\<close>

theorem convert_file_unsupported:
  "file_ext input_path \<notin> SUPPORTED_TYPES \<Longrightarrow> convert_file E input_path = (None, [])"
  by (simp add: convert_file_def SUPPORTED_TYPES_def)

theorem convert_file_unsupported_witness:
  "file_ext ''data/table.csv'' \<notin> SUPPORTED_TYPES
   \<and> convert_file sample_env ''data/table.csv'' = (None, [])"
  using convert_file_unsupported [of "''data/table.csv''" sample_env]
  by (simp add: file_ext_csv SUPPORTED_TYPES_def)

subsection \<open>The extractors on a document that cannot be read\<close>

lemma str_nat_1: "str_nat (Suc 0) = ''1''"
  by code_simp





subsection \<open>The names of DOCX images\<close>

lemma str_nat_2: "str_nat (Suc (Suc 0)) = ''2''"
  by code_simp

lemma docx_imgs_enumerate:
  "docx_imgs idx rels = concat (map docx_rel_imgs (zip [idx..<idx + length rels] rels))"
proof (induction rels arbitrary: idx)
  case Nil
  show ?case by simp
next
  case (Cons rel rels)
  have "idx < idx + length (rel # rels)" by simp
  from upt_conv_Cons [OF this]
  have u: "[idx..<idx + length (rel # rels)] = idx # [Suc idx..<Suc idx + length rels]"
    by simp
  show ?case
    by (simp only: u zip_Cons_Cons list.map concat.simps docx_imgs.simps Cons.IH [of "Suc idx"])
       (simp add: docx_rel_imgs_def split: sum.splits)
qed

text \<open>
  Claim C8.  For a DOCX document that opens, the images are those of the
  relationships whose target reference contains \<open>image\<close> (and whose payload
  decodes), each named \<open>img_i.png\<close> with \<open>i\<close> the 1-based position of the relationship
  among all the relationships; the counter advances at every relationship, so the
  names can have gaps.  In the witness the only image is the second relationship and
  is named \<open>img_2.png\<close>.
\<close>

theorem docx_image_names:
  "docx_open E p = Inr doc \<Longrightarrow>
   snd (convert_docx E p) =
     concat (map docx_rel_imgs (zip [1..<Suc (length (doc_rels doc))] (doc_rels doc)))"
  by (simp add: convert_docx_def docx_imgs_enumerate)

theorem docx_image_names_witness:
  "docx_open sample_env ''data/d.docx'' = Inr sample_docx
   \<and> snd (convert_docx sample_env ''data/d.docx'') = [(5, ''img_2.png'')]"
proof -
  have h: "docx_open sample_env ''data/d.docx'' = Inr sample_docx"
    by (simp add: sample_env_def)
  from docx_image_names [OF h] h show ?thesis
    by (simp add: sample_docx_def docx_rel_imgs_def upt_conv_Cons str_nat_2)
qed

subsection \<open>The text of a PPTX document\<close>

lemma pptx_shapes_no_raise:
  "\<forall>sh\<in>set slide. \<exists>ty. shape_type sh = Inr ty \<Longrightarrow>
   fst (pptx_shapes i slide) = concat (map shape_texts slide) \<and> snd (snd (pptx_shapes i slide)) = None"
  by (induction slide) (auto split: prod.splits)

lemma pptx_slides_no_raise:
  "\<forall>slide\<in>set slides. \<forall>sh\<in>set slide. \<exists>ty. shape_type sh = Inr ty \<Longrightarrow>
   fst (pptx_slides i slides) =
     concat (map (\<lambda>(k, slide). slide_heading k # concat (map shape_texts slide))
                 (zip [i..<i + length slides] slides))"
proof (induction slides arbitrary: i)
  case Nil
  show ?case by simp
next
  case (Cons slide slides)
  have "i < i + length (slide # slides)" by simp
  from upt_conv_Cons [OF this]
  have u: "[i..<i + length (slide # slides)] = i # [Suc i..<Suc i + length slides]"
    by simp
  from Cons.prems have a: "\<forall>sh\<in>set slide. \<exists>ty. shape_type sh = Inr ty" by simp
  from Cons.prems have b: "\<forall>slide\<in>set slides. \<forall>sh\<in>set slide. \<exists>ty. shape_type sh = Inr ty" by simp
  note ih = Cons.IH [OF b, of "Suc i"]
  note sh = pptx_shapes_no_raise [OF a, of i]
  obtain ts ims r where p: "pptx_shapes i slide = (ts, ims, r)" by (cases "pptx_shapes i slide") auto
  obtain ts' ims' r' where q: "pptx_slides (Suc i) slides = (ts', ims', r')"
    by (cases "pptx_slides (Suc i) slides") auto
  from sh p have r: "r = None" and t: "ts = concat (map shape_texts slide)" by simp_all
  from ih q have t': "ts' = concat (map (\<lambda>(k, slide). slide_heading k # concat (map shape_texts slide))
                 (zip [Suc i..<Suc i + length slides] slides))" by simp
  show ?case
    by (simp only: u zip_Cons_Cons list.map concat.simps pptx_slides.simps p q r t t')
       simp
qed

text \<open>
  Claim C5, as stated, fails: the heading and the shape texts of a slide are not
  separated by single newlines.  A slide with the text shapes \<open>a\<close> and \<open>b\<close> gives the
  heading, \<open>a\<close> and \<open>b\<close> with a blank line between each two of them.
\<close>

theorem pptx_text_counterexample:
  "fst (convert_pptx sample_env ''data/s.pptx'') \<noteq> Some (claimed_pptx_text sample_slides)"
  by (simp add: convert_pptx_def sample_env_def sample_slides_def claimed_pptx_text_def
      shape_texts_def shape_imgs_def slide_heading_def upt_conv_Cons)

text \<open>
  Claim C5, amended.  For a PPTX document that opens and whose shapes all report a
  shape type, the text is one flat list of entries joined by the blank-line separator:
  per slide in slide order the heading \<open># Slide k\<close> (1-based) and then the text of each
  text-bearing shape in shape order.  The separator between two shapes of a slide is
  the same blank line as between two slides.
\<close>

theorem pptx_text_flat:
  "pptx_open E p = Inr slides \<Longrightarrow>
   \<forall>slide\<in>set slides. \<forall>sh\<in>set slide. \<exists>ty. shape_type sh = Inr ty \<Longrightarrow>
   fst (convert_pptx E p) =
     Some (join [CHR 0x0A, CHR 0x0A]
       (concat (map (\<lambda>(k, slide). slide_heading k # concat (map shape_texts slide))
                    (zip [1..<Suc (length slides)] slides))))"
proof -
  assume o: "pptx_open E p = Inr slides"
    and n: "\<forall>slide\<in>set slides. \<forall>sh\<in>set slide. \<exists>ty. shape_type sh = Inr ty"
  have e: "[1..<Suc (length slides)] = [1..<1 + length slides]" by simp
  obtain ts ims r where q: "pptx_slides 1 slides = (ts, ims, r)"
    by (cases "pptx_slides 1 slides") auto
  from pptx_slides_no_raise [OF n, of 1] q
  have "ts = concat (map (\<lambda>(k, slide). slide_heading k # concat (map shape_texts slide))
                    (zip [1..<Suc (length slides)] slides))"
    by (simp only: e fst_conv)
  with o q show ?thesis by (simp add: convert_pptx_def)
qed

theorem pptx_text_flat_witness:
  "pptx_open sample_env ''data/s.pptx'' = Inr sample_slides
   \<and> fst (convert_pptx sample_env ''data/s.pptx'')
       = Some (''# Slide 1'' @ [CHR 0x0A, CHR 0x0A] @ ''a'' @ [CHR 0x0A, CHR 0x0A] @ ''b'')"
proof -
  have h: "pptx_open sample_env ''data/s.pptx'' = Inr sample_slides"
    by (simp add: sample_env_def)
  have n: "\<forall>slide\<in>set sample_slides. \<forall>sh\<in>set slide. \<exists>ty. shape_type sh = Inr ty"
    by (simp add: sample_slides_def)
  from pptx_text_flat [OF h n] h show ?thesis
    by (simp add: sample_slides_def shape_texts_def slide_heading_def upt_conv_Cons str_nat_1)
qed

subsection \<open>What the writes to the output tree change\<close>

lemma self_in_ancestors: "cs \<in> set (ancestors cs)"
  by (induction cs) auto

lemma ensure_dir_is_dir: "ensure_dir w p = Inr w1 \<Longrightarrow> is_dir w1 p"
  using self_in_ancestors [of "resolve p"]
  by (auto simp: ensure_dir_def is_dir_def split: if_splits)

lemma ensure_dir_frame:
  "ensure_dir w p = Inr w1 \<Longrightarrow>
   files w1 = files w \<and> stdout w1 = stdout w \<and> dirs w1 = dirs w \<union> set (ancestors (resolve p))"
  by (auto simp: ensure_dir_def split: if_splits)

lemma write_file_frame:
  "write_file w p c = Inr w1 \<Longrightarrow> dirs w1 = dirs w \<and> stdout w1 = stdout w"
  by (auto simp: write_file_def split: if_splits)

lemma save_image_frame:
  "save_image E w im p = Inr w1 \<Longrightarrow> dirs w1 = dirs w \<and> stdout w1 = stdout w"
  by (auto simp: save_image_def write_file_frame split: option.splits)

lemma print_event_frame:
  "dirs (print_event ev w) = dirs w \<and> files (print_event ev w) = files w
   \<and> stdout (print_event ev w) = stdout w @ [ev]"
  by (simp add: print_event_def)

subsection \<open>Figure numbering\<close>

lemma digit_char_is_digit: "d < 10 \<Longrightarrow> is_digit (digit_char d)"
  by (simp add: is_digit_def digit_char_def less_eq_char_def)

lemma digit_val_digit_char: "d < 10 \<Longrightarrow> digit_val (digit_char d) = d"
  by (simp add: digit_val_def digit_char_def)

lemma str_nat_digits: "\<forall>c\<in>set (str_nat n). is_digit c"
proof (induction n rule: str_nat.induct)
  case (1 n)
  show ?case
  proof (cases "n < 10")
    case True
    then show ?thesis by (simp add: str_nat.simps [of n] digit_char_is_digit)
  next
    case False
    with "1.IH" show ?thesis by (simp add: str_nat.simps [of n] digit_char_is_digit)
  qed
qed

lemma str_nat_not_Nil: "str_nat n \<noteq> []"
  by (simp add: str_nat.simps [of n])

lemma nat_of_digits_snoc: "nat_of_digits (ds @ [c]) = 10 * nat_of_digits ds + digit_val c"
  by (simp add: nat_of_digits_def)

lemma nat_of_digits_str_nat: "nat_of_digits (str_nat n) = n"
proof (induction n rule: str_nat.induct)
  case (1 n)
  show ?case
  proof (cases "n < 10")
    case True
    then show ?thesis by (simp add: str_nat.simps [of n] nat_of_digits_def digit_val_digit_char)
  next
    case False
    with "1.IH" show ?thesis
      by (simp add: str_nat.simps [of n] nat_of_digits_snoc digit_val_digit_char)
  qed
qed

lemma figure_label_figure_line: "figure_label (figure_line E idx p) = Some idx"
proof -
  have nd: "\<not> is_digit CHR '']''" by (simp add: is_digit_def less_eq_char_def)
  have tw: "takeWhile is_digit (str_nat idx @ CHR '']'' # r) = str_nat idx" for r
    by (simp add: takeWhile_append str_nat_digits nd)
  show ?thesis
    by (simp add: figure_label_def figure_line_def Let_def tw str_nat_not_Nil nat_of_digits_str_nat)
qed

lemma figure_label_description_line: "figure_label (description_line E p) = None"
  by (simp add: figure_label_def description_line_def)

lemma figure_labels_image_lines:
  "figure_labels (image_lines E idx ps) = [idx..<idx + length ps]"
proof (induction ps arbitrary: idx)
  case Nil
  show ?case by (simp add: figure_labels_def List.map_filter_simps)
next
  case (Cons p ps)
  have "idx < idx + length (p # ps)" by simp
  from upt_conv_Cons [OF this]
  have u: "[idx..<idx + length (p # ps)] = idx # [Suc idx..<Suc idx + length ps]" by simp
  from Cons.IH [of "Suc idx"] show ?case
    by (simp only: u) (simp add: figure_labels_def List.map_filter_simps
          figure_label_figure_line figure_label_description_line)
qed

lemma image_lines_enumerate:
  "image_lines E idx ps =
     concat (map (\<lambda>(i, p). [figure_line E i p, description_line E p]) (zip [idx..<idx + length ps] ps))"
proof (induction ps arbitrary: idx)
  case Nil
  show ?case by simp
next
  case (Cons p ps)
  have "idx < idx + length (p # ps)" by simp
  from upt_conv_Cons [OF this]
  have u: "[idx..<idx + length (p # ps)] = idx # [Suc idx..<Suc idx + length ps]" by simp
  from Cons.IH [of "Suc idx"] show ?case
    by (simp only: u) simp
qed

lemma save_images_subseq:
  "save_images E w out images = Inr (w', ps) \<Longrightarrow>
   subseq ps (map (\<lambda>(im, n). path_join (path_join out ''images'') n) images)"
proof (induction images arbitrary: w w' ps)
  case Nil
  then show ?case by simp
next
  case (Cons a images)
  obtain im n where a: "a = (im, n)" by (cases a)
  show ?case
  proof (cases "ensure_dir w (path_join out ''images'')")
    case (Inl e)
    with Cons.prems a show ?thesis by simp
  next
    case (Inr w1)
    show ?thesis
    proof (cases "save_image E w1 im (path_join (path_join out ''images'') n)")
      case (Inl e)
      with Cons.prems a Inr
      have "save_images E (print_event (Save_failed n e) w1) out images = Inr (w', ps)" by simp
      from Cons.IH [OF this] a show ?thesis by (auto intro: list_emb_Cons)
    next
      case (Inr w2)
      with Cons.prems a \<open>ensure_dir w (path_join out ''images'') = Inr w1\<close>
      obtain qs where q: "save_images E w2 out images = Inr (w', qs)"
        and p: "ps = path_join (path_join out ''images'') n # qs"
        by (auto split: sum.splits)
      from Cons.IH [OF q] a p show ?thesis by simp
    qed
  qed
qed

lemma write_file_iff: "(\<exists>w'. write_file w p c = Inr w') \<longleftrightarrow> writable (dirs w) p"
  by (auto simp: write_file_def writable_def is_dir_def)

lemma save_image_iff:
  "(\<exists>w'. save_image E w im p = Inr w') \<longleftrightarrow> save_succeeds E (dirs w) (im, p)"
  using write_file_iff [of w p "Image_file im"]
  by (auto simp: save_image_def save_succeeds_def split: option.splits)

lemma save_image_Inr: "save_image E w im p = Inr w' \<Longrightarrow> save_succeeds E (dirs w) (im, p)"
  using save_image_iff [of E w im p] by blast

lemma save_image_Inl: "save_image E w im p = Inl e \<Longrightarrow> \<not> save_succeeds E (dirs w) (im, p)"
  using save_image_iff [of E w im p] by auto

lemma loop_dirs_absorb:
  "dirs w1 = loop_dirs w out \<Longrightarrow> loop_dirs w1 out = loop_dirs w out"
  by (auto simp: loop_dirs_def)

lemma save_images_saved:
  "save_images E w out images = Inr (w', ps) \<Longrightarrow>
   ps = map snd (filter (save_succeeds E (loop_dirs w out)) (map (image_path_of out) images))"
proof (induction images arbitrary: w w' ps)
  case Nil
  then show ?case by simp
next
  case (Cons a images)
  obtain im n where a: "a = (im, n)" by (cases a)
  let ?p = "path_join (path_join out ''images'') n"
  show ?case
  proof (cases "ensure_dir w (path_join out ''images'')")
    case (Inl e)
    with Cons.prems a show ?thesis by simp
  next
    case (Inr w1)
    from ensure_dir_frame [OF Inr] have d1: "dirs w1 = loop_dirs w out"
      by (simp add: loop_dirs_def)
    show ?thesis
    proof (cases "save_image E w1 im ?p")
      case (Inl x)
      let ?w = "print_event (Save_failed n x) w1"
      from Cons.prems a Inr Inl
      have r: "save_images E ?w out images = Inr (w', ps)" by simp
      have "dirs ?w = loop_dirs w out" using d1 by (simp add: print_event_frame)
      then have l: "loop_dirs ?w out = loop_dirs w out" by (rule loop_dirs_absorb)
      from save_image_Inl [OF Inl] d1 have f: "\<not> save_succeeds E (loop_dirs w out) (im, ?p)" by simp
      from Cons.IH [OF r] l f a show ?thesis by (simp add: image_path_of_def)
    next
      case (Inr w2)
      from save_image_frame [OF Inr] d1 have "dirs w2 = loop_dirs w out" by simp
      then have l: "loop_dirs w2 out = loop_dirs w out" by (rule loop_dirs_absorb)
      from save_image_Inr [OF Inr] d1 have t: "save_succeeds E (loop_dirs w out) (im, ?p)" by simp
      from Cons.prems a \<open>ensure_dir w (path_join out ''images'') = Inr w1\<close> Inr
      obtain qs where r: "save_images E w2 out images = Inr (w', qs)" and p: "ps = ?p # qs"
        by (auto split: sum.splits)
      from Cons.IH [OF r] l t a p show ?thesis by (simp add: image_path_of_def)
    qed
  qed
qed

text \<open>
  Claim C1.  For every base text and every non-empty list of saved image paths the
  assembled Markdown is the base text, the heading and the lines of the loop, joined
  by newlines.  The lines of the loop are, for the \<open>i\<close>-th path of the list
  (1-based), the figure line numbered \<open>i\<close> for that path followed by its description
  line; the numbers read off the lines are \<open>1, 2, ..., n\<close> in this order, as many as
  there are paths.  The list the orchestrator passes holds, in the order of the
  images, the paths of exactly those images whose save succeeded: an image whose save
  failed is left out before the numbering, so the number of labels is the number of
  successful saves.  A save succeeds exactly where \<open>save_succeeds\<close> holds.
\<close>

theorem figure_numbering:
  "(image_paths \<noteq> [] \<longrightarrow>
      add_images_to_markdown E md image_paths
        = join [CHR 0x0A] (md # images_heading # image_lines E 1 image_paths))
   \<and> image_lines E 1 image_paths
        = concat (map (\<lambda>(i, p). [figure_line E i p, description_line E p])
                      (zip [1..<Suc (length image_paths)] image_paths))
   \<and> figure_labels (image_lines E 1 image_paths) = [1..<Suc (length image_paths)]
   \<and> length (figure_labels (image_lines E 1 image_paths)) = length image_paths
   \<and> (save_images E w out images = Inr (w', image_paths) \<longrightarrow>
        image_paths
          = map snd (filter (save_succeeds E (loop_dirs w out)) (map (image_path_of out) images))
        \<and> subseq image_paths (map (\<lambda>(im, n). path_join (path_join out ''images'') n) images)
        \<and> length (figure_labels (image_lines E 1 image_paths))
          = length (filter (save_succeeds E (loop_dirs w out)) (map (image_path_of out) images)))
   \<and> ((\<exists>w2. save_image E w1 im p = Inr w2) \<longleftrightarrow> save_succeeds E (dirs w1) (im, p))"
proof -
  have e: "[1..<Suc (length image_paths)] = [1..<1 + length image_paths]" by simp
  have a: "image_lines E 1 image_paths
        = concat (map (\<lambda>(i, p). [figure_line E i p, description_line E p])
                      (zip [1..<Suc (length image_paths)] image_paths))"
    by (simp only: e image_lines_enumerate [of E 1 image_paths])
  have b: "figure_labels (image_lines E 1 image_paths) = [1..<Suc (length image_paths)]"
    by (simp only: e figure_labels_image_lines [of E 1 image_paths])
  have c: "length (figure_labels (image_lines E 1 image_paths)) = length image_paths"
    by (simp only: b length_upt)
  have d: "image_paths \<noteq> [] \<longrightarrow>
      add_images_to_markdown E md image_paths
        = join [CHR 0x0A] (md # images_heading # image_lines E 1 image_paths)"
    by (simp add: add_images_to_markdown_def markdown_lines_def)
  have f: "save_images E w out images = Inr (w', image_paths) \<longrightarrow>
        image_paths
          = map snd (filter (save_succeeds E (loop_dirs w out)) (map (image_path_of out) images))"
    using save_images_saved [of E w out images w' image_paths] by blast
  have g: "save_images E w out images = Inr (w', image_paths) \<longrightarrow>
        length (figure_labels (image_lines E 1 image_paths))
          = length (filter (save_succeeds E (loop_dirs w out)) (map (image_path_of out) images))"
  proof
    assume "save_images E w out images = Inr (w', image_paths)"
    with f have "length image_paths
        = length (filter (save_succeeds E (loop_dirs w out)) (map (image_path_of out) images))"
      by (metis length_map)
    with c show "length (figure_labels (image_lines E 1 image_paths))
          = length (filter (save_succeeds E (loop_dirs w out)) (map (image_path_of out) images))"
      by simp
  qed
  from a b c d f g save_images_subseq [of E w out images w' image_paths]
    save_image_iff [of E w1 im p]
  show ?thesis by blast
qed

lemmas fs_eval = ensure_dir_def write_file_def save_image_def is_dir_def resolve_def
  print_event_def path_join_def

lemma sample_saves:
  "\<exists>w'. save_images sample_env empty_world ''clean_md''
           [(7, ''x.png''), (9, ''y.png''), (3, ''z.png'')]
         = Inr (w', [''clean_md/images/x.png'', ''clean_md/images/z.png''])"
  by (simp add: fs_eval sample_env_def empty_world_def)

theorem figure_numbering_witness:
  "figure_labels (image_lines sample_env 1 [''clean_md/images/x.png'', ''clean_md/images/z.png'']) = [1, 2]
   \<and> add_images_to_markdown sample_env ''hi'' [''clean_md/images/x.png'', ''clean_md/images/z.png'']
       = join [CHR 0x0A] (''hi'' # images_heading
            # image_lines sample_env 1 [''clean_md/images/x.png'', ''clean_md/images/z.png''])
   \<and> [''clean_md/images/x.png'', ''clean_md/images/z.png'']
       = map snd (filter (save_succeeds sample_env (loop_dirs empty_world ''clean_md''))
           (map (image_path_of ''clean_md'') [(7, ''x.png''), (9, ''y.png''), (3, ''z.png'')]))
   \<and> \<not> save_succeeds sample_env (loop_dirs empty_world ''clean_md'') (9, ''clean_md/images/y.png'')
   \<and> subseq [''clean_md/images/x.png'', ''clean_md/images/z.png'']
        (map (\<lambda>(im, n). path_join (path_join ''clean_md'' ''images'') n)
             [(7::nat, ''x.png''), (9, ''y.png''), (3, ''z.png'')])"
proof -
  from sample_saves obtain w' where
    s: "save_images sample_env empty_world ''clean_md'' [(7, ''x.png''), (9, ''y.png''), (3, ''z.png'')]
         = Inr (w', [''clean_md/images/x.png'', ''clean_md/images/z.png''])" ..
  have n: "[''clean_md/images/x.png'', ''clean_md/images/z.png''] \<noteq> []" by simp
  have u: "[1..<Suc (length [''clean_md/images/x.png'', ''clean_md/images/z.png''])] = [1, 2]"
    by (simp add: upt_conv_Cons)
  note T = figure_numbering [of "[''clean_md/images/x.png'', ''clean_md/images/z.png'']" sample_env "''hi''"
      empty_world "''clean_md''" "[(7, ''x.png''), (9, ''y.png''), (3, ''z.png'')]" w']
  from T have a: "figure_labels (image_lines sample_env 1 [''clean_md/images/x.png'', ''clean_md/images/z.png''])
      = [1..<Suc (length [''clean_md/images/x.png'', ''clean_md/images/z.png''])]" by blast
  from T n have b: "add_images_to_markdown sample_env ''hi'' [''clean_md/images/x.png'', ''clean_md/images/z.png'']
       = join [CHR 0x0A] (''hi'' # images_heading
            # image_lines sample_env 1 [''clean_md/images/x.png'', ''clean_md/images/z.png''])" by blast
  from T s have c: "subseq [''clean_md/images/x.png'', ''clean_md/images/z.png'']
        (map (\<lambda>(im, n). path_join (path_join ''clean_md'' ''images'') n)
             [(7::nat, ''x.png''), (9, ''y.png''), (3, ''z.png'')])" by blast
  from T s have d: "[''clean_md/images/x.png'', ''clean_md/images/z.png'']
       = map snd (filter (save_succeeds sample_env (loop_dirs empty_world ''clean_md''))
           (map (image_path_of ''clean_md'') [(7, ''x.png''), (9, ''y.png''), (3, ''z.png'')]))" by blast
  have f: "\<not> save_succeeds sample_env (loop_dirs empty_world ''clean_md'') (9, ''clean_md/images/y.png'')"
    by (simp add: save_succeeds_def sample_env_def)
  from a u have a': "figure_labels (image_lines sample_env 1 [''clean_md/images/x.png'', ''clean_md/images/z.png''])
      = [1, 2]" by (simp only:)
  from a' b c d f show ?thesis by blast
qed

subsection \<open>The output tree during one iteration\<close>

lemma is_dir_mono: "dirs w \<subseteq> dirs w' \<Longrightarrow> is_dir w p \<Longrightarrow> is_dir w' p"
  by (auto simp: is_dir_def)

lemma processing_trace_append:
  "stdout w' = stdout w @ [ev] \<Longrightarrow>
   processing_trace w' = processing_trace w @ (case processing_path ev of None \<Rightarrow> [] | Some p \<Rightarrow> [p])"
  by (simp add: processing_trace_def List.map_filter_def split: option.splits)

lemma processing_trace_same: "stdout w' = stdout w \<Longrightarrow> processing_trace w' = processing_trace w"
  by (simp add: processing_trace_def)

lemma save_images_frame:
  "save_images E w out images = Inr (w', ps) \<Longrightarrow>
   dirs w \<subseteq> dirs w' \<and> processing_trace w' = processing_trace w
   \<and> (images \<noteq> [] \<longrightarrow> is_dir w' (path_join out ''images''))"
proof (induction images arbitrary: w w' ps)
  case Nil
  then show ?case by simp
next
  case (Cons a images)
  obtain im n where a: "a = (im, n)" by (cases a)
  show ?case
  proof (cases "ensure_dir w (path_join out ''images'')")
    case (Inl e)
    with Cons.prems a show ?thesis by simp
  next
    case (Inr w1)
    from ensure_dir_frame [OF Inr]
    have e1: "dirs w \<subseteq> dirs w1" and e2: "stdout w1 = stdout w" by auto
    note e3 = ensure_dir_is_dir [OF Inr]
    have t1: "processing_trace w1 = processing_trace w"
      using e2 by (rule processing_trace_same)
    show ?thesis
    proof (cases "save_image E w1 im (path_join (path_join out ''images'') n)")
      case (Inl x)
      let ?w = "print_event (Save_failed n x) w1"
      from Cons.prems a Inr Inl
      have r: "save_images E ?w out images = Inr (w', ps)" by simp
      have t: "processing_trace ?w = processing_trace w1"
        using processing_trace_append [of ?w w1 "Save_failed n x"] by (simp add: print_event_frame)
      have d: "dirs ?w = dirs w1" by (simp add: print_event_frame)
      from Cons.IH [OF r] have i1: "dirs ?w \<subseteq> dirs w'" and i2: "processing_trace w' = processing_trace ?w"
        by simp_all
      from i1 d have s1: "dirs w1 \<subseteq> dirs w'" by simp
      from s1 e3 have A: "is_dir w' (path_join out ''images'')" by (rule is_dir_mono)
      from e1 s1 have B: "dirs w \<subseteq> dirs w'" by (rule subset_trans)
      from i2 t t1 have C: "processing_trace w' = processing_trace w" by simp
      from A B C show ?thesis by simp
    next
      case (Inr w2)
      from save_image_frame [OF Inr]
      have s2: "dirs w2 = dirs w1" and s3: "stdout w2 = stdout w1" by simp_all
      have t2: "processing_trace w2 = processing_trace w1"
        using s3 by (rule processing_trace_same)
      from Cons.prems a \<open>ensure_dir w (path_join out ''images'') = Inr w1\<close> Inr
      obtain qs where r: "save_images E w2 out images = Inr (w', qs)"
        by (auto split: sum.splits)
      from Cons.IH [OF r] have i1: "dirs w2 \<subseteq> dirs w'" and i2: "processing_trace w' = processing_trace w2"
        by simp_all
      from i1 s2 have s1: "dirs w1 \<subseteq> dirs w'" by simp
      from s1 e3 have A: "is_dir w' (path_join out ''images'')" by (rule is_dir_mono)
      from e1 s1 have B: "dirs w \<subseteq> dirs w'" by (rule subset_trans)
      from i2 t2 t1 have C: "processing_trace w' = processing_trace w" by simp
      from A B C show ?thesis by simp
    qed
  qed
qed

lemma world_at_dispatch_frame:
  "world_at_dispatch E w root file = Inr w1 \<Longrightarrow>
   is_dir w1 (output_dir_of E root)
   \<and> dirs w1 = dirs w \<union> set (ancestors (resolve (output_dir_of E root)))
   \<and> files w1 = files w
   \<and> stdout w1 = stdout w @ [Processing (path_join root file)]"
proof -
  assume a: "world_at_dispatch E w root file = Inr w1"
  then obtain w0 where e: "ensure_dir w (output_dir_of E root) = Inr w0"
    and p: "w1 = print_event (Processing (path_join root file)) w0"
    by (auto simp: world_at_dispatch_def split: sum.splits)
  from ensure_dir_is_dir [OF e] have "is_dir w1 (output_dir_of E root)"
    by (simp add: p is_dir_def print_event_frame)
  with ensure_dir_frame [OF e] p show ?thesis by (simp add: print_event_frame)
qed

text \<open>
  Claim C9.  For a file that reached the dispatch (its mirrored output subfolder was
  ensured without an exception) and whose extraction gives absent text, the iteration
  ends normally with the \<open>Skipped\<close> line; the output subfolder is a directory at the
  dispatch and afterwards, and the files of the output tree are those from before the
  iteration: no Markdown file and no image is written.
\<close>

theorem skipped_file_leaves_directory:
  "world_at_dispatch E w root file = Inr w1 \<Longrightarrow>
   fst (convert_file E (path_join root file)) = None \<Longrightarrow>
   process_file E w root file = Inr (print_event (Skipped (path_join root file)) w1)
   \<and> is_dir w1 (output_dir_of E root)
   \<and> is_dir (print_event (Skipped (path_join root file)) w1) (output_dir_of E root)
   \<and> files (print_event (Skipped (path_join root file)) w1) = files w"
proof -
  assume a: "world_at_dispatch E w root file = Inr w1"
    and b: "fst (convert_file E (path_join root file)) = None"
  from a b have "process_file E w root file = Inr (print_event (Skipped (path_join root file)) w1)"
    by (cases "convert_file E (path_join root file)") (simp add: process_file_def)
  note p = this
  from world_at_dispatch_frame [OF a]
  have d: "is_dir w1 (output_dir_of E root)" and f: "files w1 = files w" by simp_all
  from d have d': "is_dir (print_event (Skipped (path_join root file)) w1) (output_dir_of E root)"
    by (simp add: is_dir_def print_event_frame)
  from p d d' f show ?thesis by (simp add: print_event_frame)
qed

lemma file_ext_zz: "file_ext ''zz.txt'' = ''.txt''"
  by (simp add: file_ext_def splitext_def rfind_def splitext_scan.simps lower_def lower_char_def)

lemma file_ext_data_zz: "file_ext ''data/zz.txt'' = ''.txt''"
  by (simp add: file_ext_def splitext_def rfind_def splitext_scan.simps lower_def lower_char_def)

lemma resolve_sample_out: "resolve ''clean_md/.'' = [''clean_md'']"
  by (simp add: resolve_def)

lemma sample_output_dir: "output_dir_of sample_env ''data'' = ''clean_md/.''"
  by (simp add: output_dir_of_def path_join_def sample_env_def RAW_DIR_def OUTPUT_DIR_def)

lemma sample_ensure_out:
  "ensure_dir empty_world ''clean_md/.'' = Inr (empty_world\<lparr>dirs := {[], [''clean_md'']}\<rparr>)"
  by (simp add: ensure_dir_def resolve_sample_out empty_world_def)

lemma sample_dispatch_zz:
  "\<exists>w1. world_at_dispatch sample_env empty_world ''data'' ''zz.txt'' = Inr w1"
  by (simp add: world_at_dispatch_def sample_output_dir sample_ensure_out)

lemma path_join_data_zz: "path_join ''data'' ''zz.txt'' = ''data/zz.txt''"
  by (simp add: path_join_def)

lemma sample_convert_zz: "convert_file sample_env ''data/zz.txt'' = (None, [])"
  by (simp add: convert_file_def convert_generic_def file_ext_data_zz sample_env_def)

theorem skipped_file_leaves_directory_witness:
  "fst (convert_file sample_env (path_join ''data'' ''zz.txt'')) = None
   \<and> (case process_file sample_env empty_world ''data'' ''zz.txt'' of
         Inl e \<Rightarrow> False
       | Inr w' \<Rightarrow> is_dir w' (output_dir_of sample_env ''data'') \<and> files w' = Map.empty)"
proof -
  from sample_dispatch_zz obtain w1 where
    d: "world_at_dispatch sample_env empty_world ''data'' ''zz.txt'' = Inr w1" ..
  have c: "fst (convert_file sample_env (path_join ''data'' ''zz.txt'')) = None"
    by (simp add: path_join_data_zz sample_convert_zz)
  from skipped_file_leaves_directory [OF d c] c show ?thesis
    by (simp add: empty_world_def print_event_def)
qed

subsection \<open>The order of processing\<close>

lemma process_file_trace:
  "process_file E w root file = Inr w' \<Longrightarrow>
   processing_trace w' = processing_trace w @ [path_join root file]"
proof -
  assume a: "process_file E w root file = Inr w'"
  then obtain w1 where d: "world_at_dispatch E w root file = Inr w1"
    by (auto simp: process_file_def split: sum.splits)
  from world_at_dispatch_frame [OF d]
  have "stdout w1 = stdout w @ [Processing (path_join root file)]" by simp
  from processing_trace_append [OF this]
  have t1: "processing_trace w1 = processing_trace w @ [path_join root file]" by simp
  obtain md_text images where c: "convert_file E (path_join root file) = (md_text, images)"
    by (cases "convert_file E (path_join root file)")
  show ?thesis
  proof (cases md_text)
    case None
    with a d c have "w' = print_event (Skipped (path_join root file)) w1"
      by (simp add: process_file_def)
    then have "stdout w' = stdout w1 @ [Skipped (path_join root file)]"
      by (simp add: print_event_frame)
    from processing_trace_append [OF this] t1 show ?thesis by simp
  next
    case (Some md)
    with a d c obtain w2 ps where s: "save_images E w1 (output_dir_of E root) images = Inr (w2, ps)"
      and wr: "write_file w2 (md_output_path_of E root file)
                 (Text_file (add_images_to_markdown E md ps)) = Inr w'"
      by (auto simp: process_file_def split: sum.splits)
    from save_images_frame [OF s] have t2: "processing_trace w2 = processing_trace w1" by simp
    from write_file_frame [OF wr] have "stdout w' = stdout w2" by simp
    then have "processing_trace w' = processing_trace w2" by (rule processing_trace_same)
    with t2 t1 show ?thesis by simp
  qed
qed

lemma process_files_trace:
  "process_files E w root fs = Inr w' \<Longrightarrow>
   processing_trace w' =
     processing_trace w @ map (path_join root) (filter (\<lambda>f. file_ext f \<in> SUPPORTED_TYPES) fs)"
proof (induction fs arbitrary: w)
  case Nil
  then show ?case by simp
next
  case (Cons f fs)
  show ?case
  proof (cases "file_ext f \<in> SUPPORTED_TYPES")
    case False
    with Cons.prems have "process_files E w root fs = Inr w'" by simp
    from Cons.IH [OF this] False show ?thesis by simp
  next
    case True
    with Cons.prems obtain w1 where p: "process_file E w root f = Inr w1"
      and r: "process_files E w1 root fs = Inr w'"
      by (auto split: sum.splits)
    from Cons.IH [OF r] process_file_trace [OF p] True show ?thesis by simp
  qed
qed

lemma walk_loop_trace:
  "walk_loop E w triples = Inr w' \<Longrightarrow>
   processing_trace w' = processing_trace w @ walk_inputs triples"
proof (induction triples arbitrary: w)
  case Nil
  then show ?case by (simp add: walk_inputs_def)
next
  case (Cons tr triples)
  obtain root ds fs where tr: "tr = (root, ds, fs)" by (cases tr)
  from Cons.prems tr obtain w1 where p: "process_files E w root (sort fs) = Inr w1"
    and r: "walk_loop E w1 triples = Inr w'"
    by (auto split: sum.splits)
  from Cons.IH [OF r] process_files_trace [OF p] tr show ?case
    by (simp add: walk_inputs_def supported_sorted_def)
qed

lemma run_pipeline_trace:
  "run_pipeline E w (Some t) = Inr w' \<Longrightarrow>
   processing_trace w' = processing_trace w @ walk_inputs (os_walk RAW_DIR t)"
proof -
  assume a: "run_pipeline E w (Some t) = Inr w'"
  then obtain w1 where l: "walk_loop E (print_event Started w) (os_walk RAW_DIR t) = Inr w1"
    and f: "w' = print_event Finished w1"
    by (auto simp: run_pipeline_def split: sum.splits)
  have s: "processing_trace (print_event Started w) = processing_trace w"
    using processing_trace_append [of "print_event Started w" w Started]
    by (simp add: print_event_frame)
  have e: "processing_trace w' = processing_trace w1"
    using processing_trace_append [of w' w1 Finished] f
    by (simp add: print_event_frame)
  from walk_loop_trace [OF l] s e show ?thesis by simp
qed

lemma sorted_supported_sorted: "sorted (supported_sorted fs)"
  by (simp add: supported_sorted_def sorted_wrt_filter)

lemma os_walk_name_order:
  "listed_in_name_order t \<Longrightarrow> os_walk walk_top t = name_order_walk walk_top t"
proof (induction walk_top t rule: os_walk.induct)
  case (1 walk_top n subs fs)
  from "1.prems" have s: "sorted (map dir_name subs)" and a: "list_all listed_in_name_order subs"
    by simp_all
  from s have k: "sort_key dir_name subs = subs" by (rule sort_key_id_if_sorted)
  from s have k': "sort (map dir_name subs) = map dir_name subs" by (rule sorted_sort_id)
  have m: "map (\<lambda>s. os_walk (path_join walk_top (dir_name s)) s) subs
      = map (\<lambda>s. name_order_walk (path_join walk_top (dir_name s)) s) subs"
  proof (rule map_cong [OF refl])
    fix x assume x: "x \<in> set subs"
    with a have "listed_in_name_order x" by (simp add: list_all_iff)
    from "1.IH" [OF x this]
    show "os_walk (path_join walk_top (dir_name x)) x = name_order_walk (path_join walk_top (dir_name x)) x" .
  qed
  show ?case by (simp only: os_walk.simps name_order_walk.simps k k' m)
qed

lemma ensure_dir_no_files:
  "files w = Map.empty \<Longrightarrow>
   ensure_dir w p = Inr (w\<lparr>dirs := dirs w \<union> set (ancestors (resolve p))\<rparr>)"
  by (simp add: ensure_dir_def list_ex_iff)

lemma process_file_skip:
  assumes f: "files w = Map.empty"
    and c: "fst (convert_file E (path_join root file)) = None"
  shows "\<exists>w'. process_file E w root file = Inr w' \<and> files w' = Map.empty"
proof -
  obtain images where c': "convert_file E (path_join root file) = (None, images)"
    using c by (cases "convert_file E (path_join root file)") simp
  show ?thesis
    by (simp add: process_file_def world_at_dispatch_def ensure_dir_no_files [OF f] c'
          print_event_def f)
qed

lemma process_files_skip:
  "files w = Map.empty \<Longrightarrow>
   \<forall>f\<in>set fs. fst (convert_file E (path_join root f)) = None \<Longrightarrow>
   \<exists>w'. process_files E w root fs = Inr w' \<and> files w' = Map.empty"
proof (induction fs arbitrary: w)
  case Nil
  then show ?case by simp
next
  case (Cons f fs)
  from Cons.prems have c: "fst (convert_file E (path_join root f)) = None"
    and r: "\<forall>f\<in>set fs. fst (convert_file E (path_join root f)) = None" by simp_all
  show ?case
  proof (cases "file_ext f \<in> SUPPORTED_TYPES")
    case False
    with Cons.IH [OF Cons.prems(1) r] show ?thesis by simp
  next
    case True
    from process_file_skip [OF Cons.prems(1) c] obtain w1
      where p: "process_file E w root f = Inr w1" and e: "files w1 = Map.empty" by blast
    from Cons.IH [OF e r] True p show ?thesis by simp
  qed
qed

lemma walk_loop_skip:
  "files w = Map.empty \<Longrightarrow>
   \<forall>tr\<in>set triples. \<forall>f\<in>set (snd (snd tr)). fst (convert_file E (path_join (fst tr) f)) = None \<Longrightarrow>
   \<exists>w'. walk_loop E w triples = Inr w' \<and> files w' = Map.empty"
proof (induction triples arbitrary: w)
  case Nil
  then show ?case by simp
next
  case (Cons tr triples)
  obtain root ds fs where tr: "tr = (root, ds, fs)" by (cases tr)
  from Cons.prems(2) tr have c: "\<forall>f\<in>set (sort fs). fst (convert_file E (path_join root f)) = None"
    by simp
  from Cons.prems(2) have r: "\<forall>tr\<in>set triples. \<forall>f\<in>set (snd (snd tr)).
      fst (convert_file E (path_join (fst tr) f)) = None" by simp
  from process_files_skip [OF Cons.prems(1) c] obtain w1
    where p: "process_files E w root (sort fs) = Inr w1" and e: "files w1 = Map.empty" by blast
  from Cons.IH [OF e r] tr p show ?case by simp
qed

lemma sample_convert_none:
  "p \<noteq> ''data/report.pdf'' \<Longrightarrow> p \<noteq> ''data/d.docx'' \<Longrightarrow> p \<noteq> ''data/s.pptx'' \<Longrightarrow>
   p \<noteq> ''data/a.txt'' \<Longrightarrow> file_ext p \<in> {''.txt'', ''.csv''} \<Longrightarrow>
   fst (convert_file sample_env p) = None"
  by (auto simp: convert_file_def convert_generic_def sample_env_def)

lemmas ext_eval = file_ext_def splitext_def rfind_def splitext_scan.simps lower_def lower_char_def

lemma sample_exts:
  "file_ext ''zz.txt'' = ''.txt''" "file_ext ''aa.txt'' = ''.txt''" "file_ext ''x.txt'' = ''.txt''"
  "file_ext ''notes.csv'' = ''.csv''"
  "file_ext ''data/zz.txt'' = ''.txt''" "file_ext ''data/aa.txt'' = ''.txt''"
  "file_ext ''data/a/x.txt'' = ''.txt''" "file_ext ''data/b/x.txt'' = ''.txt''"
  "file_ext ''data/notes.csv'' = ''.csv''"
  by (simp_all add: ext_eval)

lemma walk_unsorted:
  "os_walk RAW_DIR unsorted_tree =
     [(''data'', [''b'', ''a''], [''zz.txt'', ''notes.csv'', ''aa.txt'']),
      (''data/b'', [], [''x.txt'']), (''data/a'', [], [''x.txt''])]"
  by (simp add: unsorted_tree_def RAW_DIR_def path_join_def)

lemma walk_sorted:
  "os_walk RAW_DIR sorted_tree =
     [(''data'', [''a'', ''b''], [''zz.txt'', ''notes.csv'', ''aa.txt'']),
      (''data/a'', [], [''x.txt'']), (''data/b'', [], [''x.txt''])]"
  by (simp add: sorted_tree_def RAW_DIR_def path_join_def)

lemma name_walk_unsorted:
  "name_order_walk RAW_DIR unsorted_tree =
     [(''data'', [''a'', ''b''], [''zz.txt'', ''notes.csv'', ''aa.txt'']),
      (''data/a'', [], [''x.txt'']), (''data/b'', [], [''x.txt''])]"
  by (simp add: unsorted_tree_def RAW_DIR_def path_join_def)

lemma sorted_sample_files:
  "supported_sorted [''zz.txt'', ''notes.csv'', ''aa.txt''] = [''aa.txt'', ''zz.txt'']"
  "supported_sorted [''x.txt''] = [''x.txt'']"
  by (simp_all add: supported_sorted_def sample_exts SUPPORTED_TYPES_def)

lemma inputs_unsorted:
  "walk_inputs (os_walk RAW_DIR unsorted_tree)
     = [''data/aa.txt'', ''data/zz.txt'', ''data/b/x.txt'', ''data/a/x.txt'']"
  by (simp add: walk_unsorted walk_inputs_def sorted_sample_files path_join_def)

lemma inputs_sorted:
  "walk_inputs (os_walk RAW_DIR sorted_tree)
     = [''data/aa.txt'', ''data/zz.txt'', ''data/a/x.txt'', ''data/b/x.txt'']"
  by (simp add: walk_sorted walk_inputs_def sorted_sample_files path_join_def)

lemma inputs_name_order_unsorted:
  "walk_inputs (name_order_walk RAW_DIR unsorted_tree)
     = [''data/aa.txt'', ''data/zz.txt'', ''data/a/x.txt'', ''data/b/x.txt'']"
  by (simp add: name_walk_unsorted walk_inputs_def sorted_sample_files path_join_def)

lemma sample_all_skipped:
  "\<forall>tr\<in>set [(''data'', ds0, [''zz.txt'', ''notes.csv'', ''aa.txt'']),
               (''data/b'', [], [''x.txt'']), (''data/a'', [], [''x.txt''])].
     \<forall>f\<in>set (snd (snd tr)). fst (convert_file sample_env (path_join (fst tr) f)) = None"
  by (simp add: path_join_def sample_convert_none sample_exts)

lemma run_unsorted:
  "\<exists>w'. run_pipeline sample_env empty_world (Some unsorted_tree) = Inr w'"
proof -
  have f: "files (print_event Started empty_world) = Map.empty"
    by (simp add: print_event_def empty_world_def)
  from walk_loop_skip [OF f, of "os_walk RAW_DIR unsorted_tree" sample_env]
    sample_all_skipped [of "[''b'', ''a'']"]
  obtain w1 where "walk_loop sample_env (print_event Started empty_world)
      (os_walk RAW_DIR unsorted_tree) = Inr w1"
    by (auto simp only: walk_unsorted)
  then show ?thesis by (simp add: run_pipeline_def)
qed

lemma run_sorted:
  "\<exists>w'. run_pipeline sample_env empty_world (Some sorted_tree) = Inr w'"
proof -
  have f: "files (print_event Started empty_world) = Map.empty"
    by (simp add: print_event_def empty_world_def)
  have "\<forall>tr\<in>set (os_walk RAW_DIR sorted_tree).
     \<forall>f\<in>set (snd (snd tr)). fst (convert_file sample_env (path_join (fst tr) f)) = None"
    using sample_all_skipped [of "[''a'', ''b'']"] by (simp add: walk_sorted)
  from walk_loop_skip [OF f this]
  obtain w1 where "walk_loop sample_env (print_event Started empty_world)
      (os_walk RAW_DIR sorted_tree) = Inr w1"
    by auto
  then show ?thesis by (simp add: run_pipeline_def)
qed

text \<open>
  Claim C6, amended.  In a run that ends normally the files are processed in this
  order: the directories in the order in which \<open>os.walk\<close> yields them (top-down, each
  directory before its subdirectories, the subdirectories in the order of the
  directory listing), and within each directory the files that pass the extension
  filter in sorted name order.  The order is a function of the tree and its listings.
  Where every listing reports the subdirectories in name order, the directories are
  visited in name order.
\<close>

theorem processing_order:
  "run_pipeline E w (Some t) = Inr w' \<Longrightarrow>
   processing_trace w' = processing_trace w @ walk_inputs (os_walk RAW_DIR t)
   \<and> sorted (supported_sorted fs)
   \<and> (listed_in_name_order t \<longrightarrow> os_walk RAW_DIR t = name_order_walk RAW_DIR t)"
  using run_pipeline_trace [of E w t w'] sorted_supported_sorted [of fs]
    os_walk_name_order [of t RAW_DIR]
  by blast

theorem processing_order_witness:
  "listed_in_name_order sorted_tree
   \<and> (case run_pipeline sample_env empty_world (Some sorted_tree) of
         Inl e \<Rightarrow> False
       | Inr w' \<Rightarrow> processing_trace w'
            = [''data/aa.txt'', ''data/zz.txt'', ''data/a/x.txt'', ''data/b/x.txt''])
   \<and> os_walk RAW_DIR sorted_tree = name_order_walk RAW_DIR sorted_tree"
proof -
  from run_sorted obtain w' where
    r: "run_pipeline sample_env empty_world (Some sorted_tree) = Inr w'" ..
  have l: "listed_in_name_order sorted_tree" by (simp add: sorted_tree_def)
  have e: "processing_trace empty_world = []"
    by (simp add: processing_trace_def empty_world_def List.map_filter_simps)
  from processing_order [OF r] l e r show ?thesis
    by (simp add: inputs_sorted)
qed

text \<open>
  Claim C6, as stated, fails: the directories are visited in the order in which
  \<open>os.walk\<close> yields them, which is the order of the directory listings; the program
  sorts the file names of a directory and nothing else.  For the tree whose listing
  reports \<open>b\<close> before \<open>a\<close>, the file of \<open>b\<close> is processed before the file of \<open>a\<close>,
  which is not the order of a walk that visits the directories in name order.
\<close>

theorem processing_order_counterexample:
  "(case run_pipeline sample_env empty_world (Some unsorted_tree) of
      Inl e \<Rightarrow> False
    | Inr w' \<Rightarrow> processing_trace w'
         = [''data/aa.txt'', ''data/zz.txt'', ''data/b/x.txt'', ''data/a/x.txt'']
       \<and> processing_trace w' \<noteq> walk_inputs (name_order_walk RAW_DIR unsorted_tree))"
proof -
  from run_unsorted obtain w' where
    r: "run_pipeline sample_env empty_world (Some unsorted_tree) = Inr w'" ..
  have e: "processing_trace empty_world = []"
    by (simp add: processing_trace_def empty_world_def List.map_filter_simps)
  from run_pipeline_trace [OF r] e r show ?thesis
    by (simp add: inputs_unsorted inputs_name_order_unsorted)
qed

subsection \<open>When the images subfolder is created\<close>

lemma process_file_images_dir:
  assumes p: "process_file E w root file = Inr w'"
    and c: "convert_file E (path_join root file) = (Some md, images)"
  shows "(images \<noteq> [] \<longrightarrow> is_dir w' (images_dir_of E root))
         \<and> (images = [] \<longrightarrow> dirs w' = dirs w \<union> set (ancestors (resolve (output_dir_of E root))))"
proof -
  from p obtain w1 where d: "world_at_dispatch E w root file = Inr w1"
    by (auto simp: process_file_def split: sum.splits)
  from p d c obtain w2 ps where s: "save_images E w1 (output_dir_of E root) images = Inr (w2, ps)"
    and wr: "write_file w2 (md_output_path_of E root file)
               (Text_file (add_images_to_markdown E md ps)) = Inr w'"
    by (auto simp: process_file_def split: sum.splits)
  from write_file_frame [OF wr] have dw: "dirs w' = dirs w2" by simp
  have a: "images \<noteq> [] \<longrightarrow> is_dir w' (images_dir_of E root)"
  proof
    assume "images \<noteq> []"
    with save_images_frame [OF s] have "is_dir w2 (path_join (output_dir_of E root) ''images'')"
      by simp
    with dw show "is_dir w' (images_dir_of E root)"
      by (simp add: is_dir_def images_dir_of_def)
  qed
  have b: "images = [] \<longrightarrow> dirs w' = dirs w \<union> set (ancestors (resolve (output_dir_of E root)))"
  proof
    assume "images = []"
    with s have "w2 = w1" by simp
    with dw world_at_dispatch_frame [OF d]
    show "dirs w' = dirs w \<union> set (ancestors (resolve (output_dir_of E root)))" by simp
  qed
  from a b show ?thesis ..
qed

text \<open>
  Claim C7, amended.  For a file that passed the extension filter the orchestrator
  ensures, before it dispatches, the mirrored output subfolder together with the
  directories above it, and nothing else.  The \<open>images\<close> subfolder is ensured after
  the extraction, once for each extracted image: it is a directory after an iteration
  whose extraction returned a text and at least one image, and an iteration whose
  extraction returned a text and no image creates no directory beyond the output
  subfolder and the directories above it.
\<close>

theorem output_dir_before_dispatch:
  "(world_at_dispatch E w root file = Inr w1 \<longrightarrow>
      is_dir w1 (output_dir_of E root)
      \<and> dirs w1 = dirs w \<union> set (ancestors (resolve (output_dir_of E root))))
   \<and> (process_file E w root file = Inr w'
        \<and> convert_file E (path_join root file) = (Some md, images) \<and> images \<noteq> []
      \<longrightarrow> is_dir w' (images_dir_of E root))
   \<and> (process_file E w root file = Inr w'
        \<and> convert_file E (path_join root file) = (Some md, [])
      \<longrightarrow> dirs w' = dirs w \<union> set (ancestors (resolve (output_dir_of E root))))"
  using world_at_dispatch_frame [of E w root "file" w1]
    process_file_images_dir [of E w root "file" w' md images]
    process_file_images_dir [of E w root "file" w' md "[]"]
  by blast

lemma sample_images_dir: "images_dir_of sample_env ''data'' = ''clean_md/./images''"
  by (simp add: images_dir_of_def sample_output_dir path_join_def)

lemma resolve_sample_images: "resolve ''clean_md/./images'' = [''clean_md'', ''images'']"
  by (simp add: resolve_def)

lemma sample_exts2: "file_ext ''a.txt'' = ''.txt''" "file_ext ''data/a.txt'' = ''.txt''"
  "file_ext ''data/report.pdf'' = ''.pdf''"
  by (simp_all add: ext_eval)

lemma path_join_data_a: "path_join ''data'' ''a.txt'' = ''data/a.txt''"
  by (simp add: path_join_def)

lemma path_join_data_report: "path_join ''data'' ''report.pdf'' = ''data/report.pdf''"
  by (simp add: path_join_def)

lemma sample_dispatch_a:
  "world_at_dispatch sample_env empty_world ''data'' ''a.txt''
     = Inr (print_event (Processing ''data/a.txt'') (empty_world\<lparr>dirs := {[], [''clean_md'']}\<rparr>))"
  by (simp add: world_at_dispatch_def sample_output_dir sample_ensure_out path_join_def)

text \<open>
  Claim C7, as stated, fails: at the dispatch of \<open>data/a.txt\<close>, a file with a supported
  extension, the output subfolder is a directory and its \<open>images\<close> subfolder is not.
\<close>

theorem images_dir_counterexample:
  "file_ext ''a.txt'' \<in> SUPPORTED_TYPES
   \<and> (case world_at_dispatch sample_env empty_world ''data'' ''a.txt'' of
         Inl e \<Rightarrow> False
       | Inr w1 \<Rightarrow> is_dir w1 (output_dir_of sample_env ''data'')
                    \<and> \<not> is_dir w1 (images_dir_of sample_env ''data''))"
  by (simp add: sample_exts2 SUPPORTED_TYPES_def sample_dispatch_a sample_images_dir
        sample_output_dir is_dir_def resolve_sample_images resolve_sample_out print_event_def)


lemma sample_convert_a: "convert_file sample_env ''data/a.txt'' = (Some ''hello'', [])"
  by (simp add: convert_file_def sample_exts2 convert_generic_def sample_env_def)

lemma sample_convert_report:
  "convert_file sample_env ''data/report.pdf'' = (Some ''hello'', [(7, ''img_1_1.png'')])"
  by (simp add: convert_file_def sample_exts2 convert_pdf_def sample_env_def str_nat_1)

lemma sample_dispatch_report:
  "world_at_dispatch sample_env empty_world ''data'' ''report.pdf''
     = Inr (print_event (Processing ''data/report.pdf'') (empty_world\<lparr>dirs := {[], [''clean_md'']}\<rparr>))"
  by (simp add: world_at_dispatch_def sample_output_dir sample_ensure_out path_join_def)

lemma sample_md_paths:
  "resolve (md_output_path_of sample_env ''data'' ''a.txt'') = [''clean_md'', ''a.md'']"
  "resolve (md_output_path_of sample_env ''data'' ''report.pdf'') = [''clean_md'', ''report.md'']"
  by (simp_all add: md_output_path_of_def sample_output_dir splitext_def rfind_def
        splitext_scan.simps path_join_def resolve_def)

lemma sample_image_path:
  "path_join (path_join ''clean_md/.'' ''images'') ''img_1_1.png'' = ''clean_md/./images/img_1_1.png''"
  "path_join ''clean_md/.'' ''images'' = ''clean_md/./images''"
  "path_join ''clean_md/./images'' ''img_1_1.png'' = ''clean_md/./images/img_1_1.png''"
  "resolve ''clean_md/./images/img_1_1.png'' = [''clean_md'', ''images'', ''img_1_1.png'']"
  by (simp_all add: path_join_def resolve_def)

lemma sample_dispatch_a_world:
  "world_at_dispatch sample_env empty_world ''data'' ''a.txt''
     = Inr \<lparr>dirs = {[], [''clean_md'']}, files = Map.empty, stdout = [Processing ''data/a.txt'']\<rparr>"
  unfolding sample_dispatch_a by (simp add: print_event_def empty_world_def)

lemma sample_dispatch_report_world:
  "world_at_dispatch sample_env empty_world ''data'' ''report.pdf''
     = Inr \<lparr>dirs = {[], [''clean_md'']}, files = Map.empty, stdout = [Processing ''data/report.pdf'']\<rparr>"
  unfolding sample_dispatch_report by (simp add: print_event_def empty_world_def)

lemma sample_write_a:
  "\<exists>w'. write_file \<lparr>dirs = {[], [''clean_md'']}, files = Map.empty, stdout = [Processing ''data/a.txt'']\<rparr>
      (md_output_path_of sample_env ''data'' ''a.txt'') c = Inr w'"
  by (simp add: write_file_def is_dir_def sample_md_paths)

lemma sample_image_save: "image_save sample_env 7 p = None"
  by (simp add: sample_env_def)

lemma sample_ensure_images:
  "ensure_dir \<lparr>dirs = {[], [''clean_md'']}, files = Map.empty, stdout = out\<rparr> ''clean_md/./images''
     = Inr \<lparr>dirs = {[], [''clean_md''], [''clean_md'', ''images'']}, files = Map.empty, stdout = out\<rparr>"
  by (auto simp: ensure_dir_def resolve_sample_images)

lemma sample_save_report:
  "save_images sample_env
      \<lparr>dirs = {[], [''clean_md'']}, files = Map.empty, stdout = [Processing ''data/report.pdf'']\<rparr>
      ''clean_md/.'' [(7, ''img_1_1.png'')]
     = Inr (\<lparr>dirs = {[], [''clean_md''], [''clean_md'', ''images'']},
             files = [[''clean_md'', ''images'', ''img_1_1.png''] \<mapsto> Image_file 7],
             stdout = [Processing ''data/report.pdf'']\<rparr>,
            [''clean_md/./images/img_1_1.png''])"
  by (simp add: sample_image_path sample_ensure_images save_image_def sample_image_save
        write_file_def is_dir_def)

lemma sample_write_report:
  "\<exists>w'. write_file \<lparr>dirs = {[], [''clean_md''], [''clean_md'', ''images'']},
             files = [[''clean_md'', ''images'', ''img_1_1.png''] \<mapsto> Image_file 7],
             stdout = [Processing ''data/report.pdf'']\<rparr>
      (md_output_path_of sample_env ''data'' ''report.pdf'') c = Inr w'"
  by (simp add: write_file_def is_dir_def sample_md_paths)

lemma sample_process_a:
  "\<exists>w'. process_file sample_env empty_world ''data'' ''a.txt'' = Inr w'"
  by (simp add: process_file_def sample_dispatch_a_world path_join_data_a sample_convert_a
        sample_write_a)

lemma sample_process_report:
  "\<exists>w'. process_file sample_env empty_world ''data'' ''report.pdf'' = Inr w'"
  by (simp add: process_file_def sample_dispatch_report_world path_join_data_report
        sample_convert_report sample_output_dir sample_save_report sample_write_report
        del: save_images.simps)

theorem output_dir_before_dispatch_witness:
  "(case world_at_dispatch sample_env empty_world ''data'' ''a.txt'' of
      Inl e \<Rightarrow> False
    | Inr w1 \<Rightarrow> is_dir w1 (output_dir_of sample_env ''data''))
   \<and> (case process_file sample_env empty_world ''data'' ''report.pdf'' of
         Inl e \<Rightarrow> False
       | Inr w' \<Rightarrow> is_dir w' (images_dir_of sample_env ''data''))
   \<and> (case process_file sample_env empty_world ''data'' ''a.txt'' of
         Inl e \<Rightarrow> False
       | Inr w' \<Rightarrow> dirs w' = {[], [''clean_md'']})"
proof -
  let ?w1 = "print_event (Processing ''data/a.txt'') (empty_world\<lparr>dirs := {[], [''clean_md'']}\<rparr>)"
  from sample_process_report obtain wr where
    r: "process_file sample_env empty_world ''data'' ''report.pdf'' = Inr wr" ..
  from sample_process_a obtain wa where
    a: "process_file sample_env empty_world ''data'' ''a.txt'' = Inr wa" ..
  have cr: "convert_file sample_env (path_join ''data'' ''report.pdf'') = (Some ''hello'', [(7, ''img_1_1.png'')])"
    by (simp add: path_join_data_report sample_convert_report)
  have ca: "convert_file sample_env (path_join ''data'' ''a.txt'') = (Some ''hello'', [])"
    by (simp add: path_join_data_a sample_convert_a)
  have n: "[(7::nat, ''img_1_1.png'')] \<noteq> []" by simp
  from output_dir_before_dispatch [of sample_env empty_world "''data''" "''a.txt''" ?w1]
    sample_dispatch_a
  have A: "is_dir ?w1 (output_dir_of sample_env ''data'')" by blast
  from output_dir_before_dispatch [of sample_env empty_world "''data''" "''report.pdf''" _ wr
      "''hello''" "[(7, ''img_1_1.png'')]"] r cr n
  have B: "is_dir wr (images_dir_of sample_env ''data'')" by blast
  from output_dir_before_dispatch [of sample_env empty_world "''data''" "''a.txt''" _ wa "''hello''"] a ca
  have C: "dirs wa = dirs empty_world \<union> set (ancestors (resolve (output_dir_of sample_env ''data'')))"
    by blast
  from C have C': "dirs wa = {[], [''clean_md'']}"
    by (simp add: sample_output_dir resolve_sample_out empty_world_def)
  from A B C' show ?thesis by (simp add: sample_dispatch_a r a)
qed

end
